theory Spec2Isabelle
  imports Complex_Main "HOL-Library.Char_ord" "HOL-Library.List_Lexorder" "HOL-Library.Log_Nat"
begin

text \<open>
  The attendance ledger of the QR attendance backend: the scan controller
  (\<open>controllers/students.controller.js\<close>), the manual override, the auto checkout and the
  day views (\<open>controllers/upload.controller.js\<close>), and the three reconciliation sweeps of
  the auto-attendance service, over a ledger of student documents with explicit time,
  explicit store and explicit notification outcomes.
\<close>

section \<open>Time\<close>

text \<open>
  A JavaScript \<open>Date\<close> is its number of milliseconds since the epoch, an \<open>int\<close>.
  The process's local time zone is a fixed offset \<open>tz\<close> in milliseconds east of UTC
  (Asia/Colombo is \<open>19800000\<close>); daylight saving is not modelled.
  Every \<open>Date\<close> object is truthy, so \<open>!record.leaveTime\<close> is \<open>leaveTime r = None\<close>.
\<close>

definition msPerDay :: int where
  "msPerDay = 24 * 60 * 60 * 1000"

text \<open>\<open>d.setHours(h, m, s, ms)\<close>: the given wall-clock time on the local calendar day of \<open>d\<close>.\<close>

definition setHours :: "int \<Rightarrow> int \<Rightarrow> int \<Rightarrow> int \<Rightarrow> int \<Rightarrow> int \<Rightarrow> int" where
  "setHours tz d h m s ms = d - (d + tz) mod msPerDay + (((h * 60 + m) * 60 + s) * 1000 + ms)"

text \<open>\<open>d.setUTCHours(h, m, s, ms)\<close>: the same on the UTC calendar day of \<open>d\<close>.\<close>

definition setUTCHours :: "int \<Rightarrow> int \<Rightarrow> int \<Rightarrow> int \<Rightarrow> int \<Rightarrow> int" where
  "setUTCHours d h m s ms = d - d mod msPerDay + (((h * 60 + m) * 60 + s) * 1000 + ms)"

text \<open>
  \<open>d.toDateString()\<close> names the local calendar day of \<open>d\<close>, and
  \<open>d.toISOString().split('T')[0]\<close> its UTC calendar day. Both are only ever compared for
  equality, so each is modelled by the number of that day.
\<close>

definition toDateString :: "int \<Rightarrow> int \<Rightarrow> int" where
  "toDateString tz d = (d + tz) div msPerDay"

definition toISODate :: "int \<Rightarrow> int" where
  "toISODate d = d div msPerDay"

section \<open>The ledger\<close>

record attendance_record =
  date :: int
  status :: string
  entryTime :: "int option"
  leaveTime :: "int option"

record student =
  name :: string
  indexNumber :: string
  student_status :: string
  parent_telephone :: "string option"
  attendanceHistory :: "attendance_record list"
  attendanceCount :: nat
  attendancePercentage :: rat
  lastAttendance :: "int option"

text \<open>
  The collection of student documents is a list; a document's position is its \<open>_id\<close>.
  \<open>Student.find\<close> returns the matching documents with their ids, in collection order,
  and \<open>student.save()\<close> overwrites the document of that id. The store is taken to be
  reachable: a query or a save does not throw.
\<close>

type_synonym ledger = "student list"

definition Student_find :: "(student \<Rightarrow> bool) \<Rightarrow> ledger \<Rightarrow> (nat \<times> student) list" where
  "Student_find q db = filter (\<lambda>(i, s). q s) (enumerate 0 db)"

definition Student_findById :: "nat \<Rightarrow> ledger \<Rightarrow> student option" where
  "Student_findById i db = (if i < length db then Some (db ! i) else None)"

text \<open>
  What a sweep leaves behind besides the ledger: one event for each save, each
  notification attempt with its outcome, and each line the source logs per student.
\<close>

datatype send_outcome = Sent | NotSent | SendThrows

datatype event =
    Saved nat
  | Attempt nat send_outcome
  | NoTelephone nat
  | NoEligibleRecord nat
  | Marked nat
  | ErrorProcessing nat

type_synonym world = "ledger \<times> event list"

text \<open>
  \<open>sendTextMessage(phone, text)\<close> belongs to the WhatsApp service: it resolves to
  \<open>{success: true}\<close>, resolves to \<open>{success: false, error}\<close>, or throws. Its outcome is
  a parameter of the model, given per student and telephone number.
\<close>

type_synonym sender = "nat \<Rightarrow> string \<Rightarrow> send_outcome"

definition logEvent :: "event \<Rightarrow> world \<Rightarrow> world" where
  "logEvent e w = (fst w, snd w @ [e])"

definition save :: "nat \<Rightarrow> student \<Rightarrow> world \<Rightarrow> world" where
  "save i s w = ((fst w)[i := s], snd w @ [Saved i])"

text \<open>
  The notification block shared by the three sweeps:
  \<open>if (student.parent_telephone) { result = await sendTextMessage(...); ... } else { logWarning }\<close>.
  The first component is \<open>Inl\<close> when the call throws.
\<close>

definition notifyParent :: "sender \<Rightarrow> nat \<Rightarrow> student \<Rightarrow> world \<Rightarrow> (string + unit) \<times> world" where
  "notifyParent send i s w =
     (case parent_telephone s of
        None \<Rightarrow> (Inr (), logEvent (NoTelephone i) w)
      | Some p \<Rightarrow>
          if p = [] then (Inr (), logEvent (NoTelephone i) w)
          else (case send i p of
                  SendThrows \<Rightarrow> (Inl ''sendTextMessage'', logEvent (Attempt i SendThrows) w)
                | r \<Rightarrow> (Inr (), logEvent (Attempt i r) w)))"

text \<open>The per-student \<open>try { ... } catch (error) { logError(...) }\<close> inside each sweep's loop.\<close>

definition catchStudent :: "nat \<Rightarrow> (string + unit) \<times> world \<Rightarrow> world" where
  "catchStudent i rw = (case fst rw of Inl e \<Rightarrow> logEvent (ErrorProcessing i) (snd rw) | Inr u \<Rightarrow> snd rw)"

definition forEachStudent ::
  "(nat \<Rightarrow> student \<Rightarrow> world \<Rightarrow> (string + unit) \<times> world) \<Rightarrow> (nat \<times> student) list \<Rightarrow> world \<Rightarrow> world" where
  "forEachStudent body students w = foldl (\<lambda>w (i, s). catchStudent i (body i s w)) w students"

section \<open>JavaScript numbers\<close>

text \<open>
  A JavaScript number is an IEEE 754 double; a finite double is modelled by the rational
  it denotes. \<open>/\<close> and \<open>*\<close> return the exact result rounded to the nearest double, ties
  to even: the result is scaled by a power of two so that its integer part has 53 bits,
  rounded to an integer and scaled back. Overflow and subnormal results are not modelled;
  the quotients here are a count over a list length and the percentages are at most
  \<open>100\<close>. Counts and list lengths are integers that doubles hold exactly.
\<close>

definition roundEven :: "rat \<Rightarrow> int" where
  "roundEven m =
     (let f = \<lfloor>m\<rfloor>; r = m - of_int f
      in if r < 1 / 2 then f else if 1 / 2 < r then f + 1 else if even f then f else f + 1)"

text \<open>For \<open>q > 0\<close>, the exponent \<open>e\<close> with \<open>2 powi e \<le> q < 2 powi (e + 1)\<close>.\<close>

definition binaryExponent :: "rat \<Rightarrow> int" where
  "binaryExponent q =
     (let e = bitlen (fst (quotient_of q)) - bitlen (snd (quotient_of q))
      in if 2 powi e \<le> q then e else e - 1)"

definition toDouble :: "rat \<Rightarrow> rat" where
  "toDouble q =
     (if q = 0 then 0
      else let ulp = 2 powi (binaryExponent \<bar>q\<bar> - 52)
           in of_int (roundEven (q / ulp)) * ulp)"

definition jsDivide :: "rat \<Rightarrow> rat \<Rightarrow> rat" where
  "jsDivide x y = toDouble (x / y)"

definition jsTimes :: "rat \<Rightarrow> rat \<Rightarrow> rat" where
  "jsTimes x y = toDouble (x * y)"

section \<open>The aggregate recomputed by the sweeps\<close>

text \<open>
  \<open>totalRecords > 0 ? (presentRecords / totalRecords) * 100 : 0\<close>, the same expression in
  the three sweeps: the quotient first, then the product, each rounded to a double.
\<close>

definition presentRecords :: "attendance_record list \<Rightarrow> nat" where
  "presentRecords h = length (filter (\<lambda>record. status record = ''present'' \<or> status record = ''entered'') h)"

definition recalcPercentage :: "attendance_record list \<Rightarrow> rat" where
  "recalcPercentage h =
     (let totalRecords = length h
      in if totalRecords > 0 then jsTimes (jsDivide (of_nat (presentRecords h)) (of_nat totalRecords)) 100 else 0)"

section \<open>Backlog sweep: checkAllPastAttendance\<close>

definition incompleteBefore :: "int \<Rightarrow> attendance_record \<Rightarrow> bool" where
  "incompleteBefore today record \<longleftrightarrow>
     date record < today \<and> status record \<in> set [''entered'', ''present''] \<and> leaveTime record = None"

text \<open>\<open>leaveTime = new Date(record.date); leaveTime.setHours(18, 30, 0, 0)\<close>, then the two assignments.\<close>

definition closeAtOwnDate :: "int \<Rightarrow> attendance_record \<Rightarrow> attendance_record" where
  "closeAtOwnDate tz record = record\<lparr>leaveTime := Some (setHours tz (date record) 18 30 0 0), status := ''left''\<rparr>"

text \<open>
  The records of \<open>incompleteRecords\<close> are the subdocuments of the history themselves, so
  assigning to them rewrites the history in place. \<open>[...incompleteRecords].sort((a, b) => b.date - a.date)[0]\<close>
  is the head of a stable sort by descending date.
\<close>

definition closePastRecords :: "int \<Rightarrow> int \<Rightarrow> student \<Rightarrow> student" where
  "closePastRecords tz today s =
     (let incompleteRecords = map (closeAtOwnDate tz) (filter (incompleteBefore today) (attendanceHistory s));
          history = map (\<lambda>record. if incompleteBefore today record then closeAtOwnDate tz record else record)
                        (attendanceHistory s)
      in if length incompleteRecords > 0 then
           let lastRecord = hd (sort_key (\<lambda>record. - date record) incompleteRecords)
           in s\<lparr>attendanceHistory := history,
                lastAttendance := leaveTime lastRecord,
                attendancePercentage := recalcPercentage history\<rparr>
         else s)"

definition pastBody :: "int \<Rightarrow> int \<Rightarrow> sender \<Rightarrow> nat \<Rightarrow> student \<Rightarrow> world \<Rightarrow> (string + unit) \<times> world" where
  "pastBody tz today send i s w =
     (if length (filter (incompleteBefore today) (attendanceHistory s)) > 0 then
        let s' = closePastRecords tz today s;
            w1 = save i s' w;
            rw = notifyParent send i s' w1
        in (case fst rw of Inl e \<Rightarrow> rw | Inr u \<Rightarrow> (Inr (), logEvent (Marked i) (snd rw)))
      else (Inr (), w))"

definition checkAllPastAttendance :: "int \<Rightarrow> int \<Rightarrow> sender \<Rightarrow> ledger \<Rightarrow> world" where
  "checkAllPastAttendance tz now send db =
     (let today = setHours tz now 0 0 0 0;
          students = Student_find (\<lambda>s. \<exists>record \<in> set (attendanceHistory s). incompleteBefore today record) db
      in if students = [] then (db, [])
         else forEachStudent (pastBody tz today send) students (db, []))"

section \<open>Same-day cutoff sweep: autoMarkLeaveAttendance\<close>

text \<open>\<open>array.findIndex(p)\<close>; JavaScript's \<open>-1\<close> is \<open>None\<close>.\<close>

fun findIndex :: "('a \<Rightarrow> bool) \<Rightarrow> 'a list \<Rightarrow> nat option" where
  "findIndex p [] = None"
| "findIndex p (x # xs) = (if p x then Some 0 else map_option Suc (findIndex p xs))"

text \<open>
  The assignments both single-record sweeps make at the index they found: the record's
  \<open>leaveTime\<close> and \<open>status\<close>, then \<open>lastAttendance\<close> and the percentage.
\<close>

definition markLeftAt :: "nat \<Rightarrow> int \<Rightarrow> student \<Rightarrow> student" where
  "markLeftAt k leaveTime' s =
     (let history = (attendanceHistory s)[k := (attendanceHistory s ! k)\<lparr>leaveTime := Some leaveTime', status := ''left''\<rparr>]
      in s\<lparr>attendanceHistory := history,
           lastAttendance := Some leaveTime',
           attendancePercentage := recalcPercentage history\<rparr>)"

definition eligibleToday :: "int \<Rightarrow> int \<Rightarrow> attendance_record \<Rightarrow> bool" where
  "eligibleToday tz today record \<longleftrightarrow>
     toDateString tz (date record) = toDateString tz today \<and>
     status record \<in> set [''entered'', ''present''] \<and>
     leaveTime record = None"

definition autoMarkBody :: "int \<Rightarrow> int \<Rightarrow> int \<Rightarrow> sender \<Rightarrow> nat \<Rightarrow> student \<Rightarrow> world \<Rightarrow> (string + unit) \<times> world" where
  "autoMarkBody tz today leaveTime' send i s w =
     (case findIndex (eligibleToday tz today) (attendanceHistory s) of
        None \<Rightarrow> (Inr (), logEvent (NoEligibleRecord i) w)
      | Some todayAttendanceIndex \<Rightarrow>
          let s' = markLeftAt todayAttendanceIndex leaveTime' s;
              w1 = save i s' w;
              rw = notifyParent send i s' w1
          in (case fst rw of Inl e \<Rightarrow> rw | Inr u \<Rightarrow> (Inr (), logEvent (Marked i) (snd rw))))"

text \<open>
  The query names three dotted paths without \<open>$elemMatch\<close>, so each condition (and each
  bound of the date range) may be met by a different record of the history.
\<close>

definition autoMarkQuery :: "int \<Rightarrow> student \<Rightarrow> bool" where
  "autoMarkQuery today s \<longleftrightarrow>
     (\<exists>record \<in> set (attendanceHistory s). today \<le> date record) \<and>
     (\<exists>record \<in> set (attendanceHistory s). date record < today + 24 * 60 * 60 * 1000) \<and>
     (\<exists>record \<in> set (attendanceHistory s). status record \<in> set [''entered'', ''present'']) \<and>
     (\<exists>record \<in> set (attendanceHistory s). leaveTime record = None)"

definition autoMarkLeaveAttendance :: "int \<Rightarrow> int \<Rightarrow> sender \<Rightarrow> ledger \<Rightarrow> world" where
  "autoMarkLeaveAttendance tz now send db =
     (let today = setHours tz now 0 0 0 0;
          students = Student_find (autoMarkQuery today) db
      in if students = [] then (db, [])
         else let leaveTime' = setHours tz now 18 30 0 0
              in forEachStudent (autoMarkBody tz today leaveTime' send) students (db, []))"

section \<open>Previous-day sweep: checkPreviousDayAttendance\<close>

definition eligibleYesterday :: "int \<Rightarrow> int \<Rightarrow> attendance_record \<Rightarrow> bool" where
  "eligibleYesterday yesterday yesterdayEnd record \<longleftrightarrow>
     yesterday \<le> date record \<and> date record < yesterdayEnd \<and>
     status record \<in> set [''entered'', ''present''] \<and>
     leaveTime record = None"

definition previousDayBody :: "int \<Rightarrow> int \<Rightarrow> int \<Rightarrow> sender \<Rightarrow> nat \<Rightarrow> student \<Rightarrow> world \<Rightarrow> (string + unit) \<times> world" where
  "previousDayBody yesterday yesterdayEnd leaveTime' send i s w =
     (case findIndex (eligibleYesterday yesterday yesterdayEnd) (attendanceHistory s) of
        None \<Rightarrow> (Inr (), w)
      | Some attendanceIndex \<Rightarrow>
          let s' = markLeftAt attendanceIndex leaveTime' s;
              w1 = save i s' w;
              rw = notifyParent send i s' w1
          in (case fst rw of Inl e \<Rightarrow> rw | Inr u \<Rightarrow> (Inr (), logEvent (Marked i) (snd rw))))"

definition previousDayQuery :: "int \<Rightarrow> int \<Rightarrow> student \<Rightarrow> bool" where
  "previousDayQuery yesterday yesterdayEnd s \<longleftrightarrow>
     (\<exists>record \<in> set (attendanceHistory s). yesterday \<le> date record) \<and>
     (\<exists>record \<in> set (attendanceHistory s). date record < yesterdayEnd) \<and>
     (\<exists>record \<in> set (attendanceHistory s). status record \<in> set [''entered'', ''present'']) \<and>
     (\<exists>record \<in> set (attendanceHistory s). leaveTime record = None)"

text \<open>
  \<open>yesterday.setDate(yesterday.getDate() - 1)\<close> keeps the wall-clock time and goes back one
  calendar day, which at a fixed offset is 24 hours. The backlog sweep runs first, on the
  same clock; its early \<open>return\<close> does not end this function.
\<close>

definition checkPreviousDayAttendance :: "int \<Rightarrow> int \<Rightarrow> sender \<Rightarrow> ledger \<Rightarrow> world" where
  "checkPreviousDayAttendance tz now send db =
     (let w0 = checkAllPastAttendance tz now send db;
          yesterday = setHours tz (now - msPerDay) 0 0 0 0;
          yesterdayEnd = setHours tz yesterday 23 59 59 999;
          students = Student_find (previousDayQuery yesterday yesterdayEnd) (fst w0)
      in if students = [] then w0
         else let leaveTime' = setHours tz yesterday 18 30 0 0
              in forEachStudent (previousDayBody yesterday yesterdayEnd leaveTime' send) students w0)"

section \<open>The Student model's markAttendance method\<close>

text \<open>
  The percentage in the specification's words, as an exact number:
  \<open>100 * count(status in {present, entered}) / len(history)\<close>, and \<open>0\<close> when the history
  is empty.
\<close>

definition spec_attendanceCount :: "attendance_record list \<Rightarrow> nat" where
  "spec_attendanceCount h = length (filter (\<lambda>r. status r \<in> {''present'', ''entered''}) h)"

definition spec_attendancePercentage :: "attendance_record list \<Rightarrow> rat" where
  "spec_attendancePercentage h =
     (if h = [] then 0 else 100 * of_nat (spec_attendanceCount h) / of_nat (length h))"

text \<open>
  The same percentage as the code computes it, in doubles and quotient first:
  \<open>present / records * 100\<close>, and \<open>0\<close> when there is no record.
\<close>

definition doublePercentage :: "nat \<Rightarrow> nat \<Rightarrow> rat" where
  "doublePercentage present records =
     (if records = 0 then 0 else jsTimes (jsDivide (of_nat present) (of_nat records)) 100)"

text \<open>The latest of a list of nullable timestamps, \<open>None\<close> when none is set.\<close>

fun latest :: "int option list \<Rightarrow> int option" where
  "latest [] = None"
| "latest (None # ts) = latest ts"
| "latest (Some t # ts) = (case latest ts of None \<Rightarrow> Some t | Some u \<Rightarrow> Some (max t u))"

text \<open>
  Modelled from the spec: the Aggregate Recalculator that the model method runs before it
  persists the student is not among the sources either. \<open>attendanceCount\<close> counts the
  records with status \<open>present\<close> or \<open>entered\<close>, the percentage is
  \<open>attendanceCount / len(attendanceHistory) * 100\<close> in doubles (\<open>0\<close> when empty), and
  \<open>lastAttendance\<close> is the latest leave time of the history, or the latest entry time
  when the record just touched has no leave time yet.
\<close>

definition recompute :: "nat \<Rightarrow> student \<Rightarrow> student" where
  "recompute touched s =
     (let h = attendanceHistory s
      in s\<lparr>attendanceCount := spec_attendanceCount h,
           attendancePercentage := doublePercentage (spec_attendanceCount h) (length h),
           lastAttendance := (case leaveTime (h ! touched) of
                                None \<Rightarrow> latest (map entryTime h)
                              | Some t \<Rightarrow> latest (map leaveTime h))\<rparr>)"

text \<open>
  Modelled from the spec: the method \<open>student.markAttendance(status, adminId, deviceInfo, scanLocation)\<close>
  of \<open>models/student.model.js\<close>, which both controllers call to change the ledger, is not
  among the sources. The specification's state machine and data model give it:
  \<^item> today is the scan time floored to the local calendar day, and the record looked for
    is the one whose date is on that day;
  \<^item> with no such record a new one is appended, its date normalised to midnight; an entry
    sets \<open>entryTime\<close> to the scan time;
  \<^item> an entry on an existing record resets it to \<open>entered\<close> with a fresh \<open>entryTime\<close> and
    re-opens the day; an exit sets \<open>left\<close> and \<open>leaveTime\<close> to the scan time;
  \<^item> an administrative status (\<open>present\<close>, \<open>absent\<close>) sets the status alone, so a record
    created that way has neither time;
  \<^item> the aggregates are recomputed before the student is persisted.
  The provenance strings are written once and read by nothing here; they are left out.
\<close>

definition Student_markAttendance :: "int \<Rightarrow> int \<Rightarrow> string \<Rightarrow> student \<Rightarrow> student" where
  "Student_markAttendance tz now st s =
     (let today = setHours tz now 0 0 0 0;
          h = attendanceHistory s
      in case findIndex (\<lambda>r. toDateString tz (date r) = toDateString tz today) h of
           None \<Rightarrow>
             recompute (length h)
               (s\<lparr>attendanceHistory :=
                    h @ [\<lparr>date = today, status = st,
                          entryTime = (if st = ''entered'' then Some now else None),
                          leaveTime = (if st = ''left'' then Some now else None)\<rparr>]\<rparr>)
         | Some k \<Rightarrow>
             recompute k
               (s\<lparr>attendanceHistory :=
                    h[k := (if st = ''entered'' then (h ! k)\<lparr>status := ''entered'', entryTime := Some now, leaveTime := None\<rparr>
                            else if st = ''left'' then (h ! k)\<lparr>status := ''left'', leaveTime := Some now\<rparr>
                            else (h ! k)\<lparr>status := st\<rparr>)]\<rparr>))"

section \<open>Scan controller: markAttendance\<close>

text \<open>
  The request after the QR payload is parsed. \<open>scan_hashValid\<close> is the outcome of the
  \<open>secureHash\<close> comparison (true when the payload carries no hash). The guardian message
  sent afterwards and the \<open>messages\<close> entry it appends do not touch the attendance fields.
\<close>

record scan_request =
  scan_id :: "nat option"
  scan_indexNumber :: string
  scan_name :: string
  scan_hashValid :: bool

datatype response = Status200 string | Status400 string | Status401 | Status404

definition Student_findOne :: "(student \<Rightarrow> bool) \<Rightarrow> ledger \<Rightarrow> (nat \<times> student) option" where
  "Student_findOne q db = (case Student_find q db of [] \<Rightarrow> None | p # ps \<Rightarrow> Some p)"

definition todayAttendanceIndex :: "int \<Rightarrow> attendance_record list \<Rightarrow> nat option" where
  "todayAttendanceIndex currentScanTime h =
     findIndex (\<lambda>entry. toISODate (date entry) = toISODate currentScanTime) h"

definition statusToSave :: "int \<Rightarrow> attendance_record list \<Rightarrow> string" where
  "statusToSave currentScanTime h =
     (case todayAttendanceIndex currentScanTime h of
        None \<Rightarrow> ''entered''
      | Some k \<Rightarrow>
          let todayRecord = h ! k
          in if leaveTime todayRecord \<noteq> None then ''entered''
             else if entryTime todayRecord \<noteq> None then ''left''
             else ''entered'')"

definition markAttendance :: "int \<Rightarrow> int \<Rightarrow> scan_request \<Rightarrow> ledger \<Rightarrow> response \<times> ledger" where
  "markAttendance tz now req db =
     (if scan_indexNumber req = [] \<or> scan_name req = [] then
        (Status400 ''Student information (indexNumber and name) are required.'', db)
      else
        let byId = (case scan_id req of
                      None \<Rightarrow> None
                    | Some i \<Rightarrow> map_option (\<lambda>s. (i, s)) (Student_findById i db));
            found = (case byId of
                       Some p \<Rightarrow> Some p
                     | None \<Rightarrow> Student_findOne (\<lambda>s. indexNumber s = scan_indexNumber req \<and> name s = scan_name req) db)
        in case found of
             None \<Rightarrow> (Status404, db)
           | Some (i, s) \<Rightarrow>
               if \<not> scan_hashValid req then (Status401, db)
               else let st = statusToSave now (attendanceHistory s)
                    in (Status200 st, db[i := Student_markAttendance tz now st s]))"

section \<open>Manual override: markStudentAttendance\<close>

record mark_request =
  mark_studentId :: "nat option"
  mark_status :: string

definition validStatus :: "string list" where
  "validStatus = [''entered'', ''left'', ''present'', ''absent'']"

definition markStudentAttendance :: "int \<Rightarrow> int \<Rightarrow> mark_request \<Rightarrow> ledger \<Rightarrow> response \<times> ledger" where
  "markStudentAttendance tz now req db =
     (case mark_studentId req of
        None \<Rightarrow> (Status400 ''Student ID is required'', db)
      | Some i \<Rightarrow>
          (case Student_findById i db of
             None \<Rightarrow> (Status404, db)
           | Some s \<Rightarrow>
               if mark_status req \<notin> set validStatus then
                 (Status400 ''Invalid status. Must be one of: entered, left, present, absent'', db)
               else (Status200 (mark_status req), db[i := Student_markAttendance tz now (mark_status req) s])))"

section \<open>Administrative auto checkout: runAutoCheckout\<close>

text \<open>
  The query names its three paths without \<open>$elemMatch\<close>. For each student found, today's
  record is looked for by local midnight of its date, with status \<open>entered\<close> and no leave
  time; when there is one the model method is called with \<open>left\<close>. The notification that
  follows is wrapped in its own \<open>try\<close> and changes nothing here. The result carries the
  number of students processed.
\<close>

definition autoCheckoutQuery :: "int \<Rightarrow> student \<Rightarrow> bool" where
  "autoCheckoutQuery today s \<longleftrightarrow>
     (\<exists>record \<in> set (attendanceHistory s). today \<le> date record) \<and>
     (\<exists>record \<in> set (attendanceHistory s). status record = ''entered'') \<and>
     (\<exists>record \<in> set (attendanceHistory s). leaveTime record = None)"

definition autoCheckoutStudent :: "int \<Rightarrow> int \<Rightarrow> int \<Rightarrow> ledger \<times> nat \<Rightarrow> nat \<times> student \<Rightarrow> ledger \<times> nat" where
  "autoCheckoutStudent tz now today acc p =
     (case List.find (\<lambda>record. setHours tz (date record) 0 0 0 0 = today \<and>
                                status record = ''entered'' \<and> leaveTime record = None)
             (attendanceHistory (snd p)) of
        None \<Rightarrow> acc
      | Some todayRecord \<Rightarrow>
          ((fst acc)[fst p := Student_markAttendance tz now ''left'' (snd p)], snd acc + 1))"

definition runAutoCheckout :: "int \<Rightarrow> int \<Rightarrow> ledger \<Rightarrow> ledger \<times> nat" where
  "runAutoCheckout tz now db =
     (let today = setHours tz now 0 0 0 0;
          students = Student_find (autoCheckoutQuery today) db
      in foldl (autoCheckoutStudent tz now today) (db, 0) students)"

section \<open>Day-level read accessors\<close>

subsection \<open>getScannedStudentsToday\<close>

record today_attendance =
  att_status :: string
  att_timestamp :: int
  att_entryTime :: "int option"
  att_leaveTime :: "int option"

text \<open>The body of \<open>todayAttendance.forEach\<close>: the first entry time and the first leave time met.\<close>

definition trackTimes :: "today_attendance \<Rightarrow> attendance_record \<Rightarrow> today_attendance" where
  "trackTimes a record =
     (let a1 = (if (status record = ''entered'' \<or> entryTime record \<noteq> None) \<and> att_entryTime a = None
                then a\<lparr>att_entryTime := Some (case entryTime record of Some t \<Rightarrow> t | None \<Rightarrow> date record)\<rparr>
                else a)
      in if (status record = ''left'' \<or> leaveTime record \<noteq> None) \<and> att_leaveTime a1 = None
         then a1\<lparr>att_leaveTime := Some (case leaveTime record of Some t \<Rightarrow> t | None \<Rightarrow> date record)\<rparr>
         else a1)"

definition todayAttendance :: "int \<Rightarrow> int \<Rightarrow> student \<Rightarrow> attendance_record list" where
  "todayAttendance today endOfDay s =
     filter (\<lambda>record. today \<le> date record \<and> date record \<le> endOfDay) (attendanceHistory s)"

definition studentAttendanceMap :: "int \<Rightarrow> int \<Rightarrow> (nat \<times> student) list \<Rightarrow> (nat \<rightharpoonup> today_attendance)" where
  "studentAttendanceMap today endOfDay allStudents =
     foldl (\<lambda>m (i, s).
              let records = todayAttendance today endOfDay s
              in if length records > 0 then
                   let sorted = sort_key (\<lambda>record. - date record) records
                   in m(i \<mapsto> foldl trackTimes
                                 \<lparr>att_status = status (hd sorted), att_timestamp = date (hd sorted),
                                  att_entryTime = None, att_leaveTime = None\<rparr>
                                 sorted)
                 else m)
           Map.empty allStudents"

record scanned_row =
  row_id :: nat
  row_student :: student
  row_status :: string
  row_entryTime :: "int option"
  row_leaveTime :: "int option"

record scanned_response =
  scanned_students :: "scanned_row list"
  scanned_totalCount :: nat
  scanned_presentCount :: nat
  scanned_leftCount :: nat
  scanned_absentCount :: nat

definition getScannedStudentsToday :: "int \<Rightarrow> ledger \<Rightarrow> scanned_response" where
  "getScannedStudentsToday now db =
     (let today = setUTCHours now 0 0 0 0;
          allStudents = sort_key (\<lambda>(i, s). indexNumber s) (Student_find (\<lambda>s. student_status s = ''active'') db);
          endOfDay = setUTCHours today 23 59 59 999;
          m = studentAttendanceMap today endOfDay allStudents;
          students = map (\<lambda>(i, s).
                       case m i of
                         None \<Rightarrow> \<lparr>row_id = i, row_student = s, row_status = ''absent'',
                                  row_entryTime = None, row_leaveTime = None\<rparr>
                       | Some attendance \<Rightarrow>
                           \<lparr>row_id = i, row_student = s, row_status = att_status attendance,
                            row_entryTime = Some (case att_entryTime attendance of
                                                    Some t \<Rightarrow> t | None \<Rightarrow> att_timestamp attendance),
                            row_leaveTime = att_leaveTime attendance\<rparr>)
                     allStudents
      in \<lparr>scanned_students = students,
          scanned_totalCount = length students,
          scanned_presentCount = length (filter (\<lambda>r. row_status r = ''entered'') students),
          scanned_leftCount = length (filter (\<lambda>r. row_status r = ''left'') students),
          scanned_absentCount = length (filter (\<lambda>r. row_status r = ''absent'') students)\<rparr>)"

subsection \<open>getAttendanceByDate\<close>

text \<open>
  The argument \<open>d\<close> is \<open>new Date(date)\<close> for the validated \<open>YYYY-MM-DD\<close> parameter, the UTC
  midnight of that date. Luxon's \<open>startOf('day')\<close> and \<open>endOf('day')\<close> are 00:00:00.000 and
  23:59:59.999 of the local day, and \<open>hasSame(target, 'day')\<close> compares local days.
  An empty status string is falsy, so \<open>status || 'absent'\<close> replaces it too.
\<close>

record date_row =
  dr_id :: nat
  dr_status :: string
  dr_entryTime :: "int option"
  dr_leaveTime :: "int option"

record date_stats =
  totalCount :: nat
  presentCount :: nat
  absentCount :: nat
  lateCount :: nat

definition countRow :: "date_stats \<Rightarrow> date_row \<Rightarrow> date_stats" where
  "countRow acc r =
     (let acc = acc\<lparr>totalCount := totalCount acc + 1\<rparr>
      in if dr_status r = ''present'' \<or> dr_status r = ''entered'' then acc\<lparr>presentCount := presentCount acc + 1\<rparr>
         else if dr_status r = ''late'' then acc\<lparr>lateCount := lateCount acc + 1\<rparr>
         else if dr_status r = ''absent'' then acc\<lparr>absentCount := absentCount acc + 1\<rparr>
         else acc)"

definition processStudent :: "int \<Rightarrow> int \<Rightarrow> nat \<times> student \<Rightarrow> date_row" where
  "processStudent tz startOfDay p =
     (let dateAttendance = List.find (\<lambda>record. toDateString tz (date record) = toDateString tz startOfDay)
                             (attendanceHistory (snd p))
      in \<lparr>dr_id = fst p,
          dr_status = (case dateAttendance of
                         None \<Rightarrow> ''absent''
                       | Some record \<Rightarrow> if status record = [] then ''absent'' else status record),
          dr_entryTime = (case dateAttendance of None \<Rightarrow> None | Some record \<Rightarrow> entryTime record),
          dr_leaveTime = (case dateAttendance of None \<Rightarrow> None | Some record \<Rightarrow> leaveTime record)\<rparr>)"

definition getAttendanceByDate :: "int \<Rightarrow> int \<Rightarrow> ledger \<Rightarrow> date_row list \<times> date_stats" where
  "getAttendanceByDate tz d db =
     (let startOfDay = setHours tz d 0 0 0 0;
          endOfDay = setHours tz d 23 59 59 999;
          students = Student_find
                       (\<lambda>s. \<exists>record \<in> set (attendanceHistory s). startOfDay \<le> date record \<and> date record < endOfDay)
                       db
      in if students = [] then
           ([], \<lparr>totalCount = 0, presentCount = 0, absentCount = 0, lateCount = 0\<rparr>)
         else
           let processedStudents = map (processStudent tz startOfDay) students
           in (processedStudents,
               foldl countRow \<lparr>totalCount = 0, presentCount = 0, absentCount = 0, lateCount = 0\<rparr> processedStudents))"

section \<open>Notions used to state the properties\<close>

text \<open>What a sweep does to one student's document, leaving the notification aside.\<close>

definition closeToday :: "int \<Rightarrow> int \<Rightarrow> student \<Rightarrow> student" where
  "closeToday tz now s =
     (case findIndex (eligibleToday tz (setHours tz now 0 0 0 0)) (attendanceHistory s) of
        None \<Rightarrow> s
      | Some k \<Rightarrow> markLeftAt k (setHours tz now 18 30 0 0) s)"

definition closeYesterday :: "int \<Rightarrow> int \<Rightarrow> student \<Rightarrow> student" where
  "closeYesterday tz now s =
     (let yesterday = setHours tz (now - msPerDay) 0 0 0 0
      in case findIndex (eligibleYesterday yesterday (setHours tz yesterday 23 59 59 999)) (attendanceHistory s) of
           None \<Rightarrow> s
         | Some k \<Rightarrow> markLeftAt k (setHours tz yesterday 18 30 0 0) s)"

text \<open>
  In a sweep's event list every notification attempt for a student comes after a save of
  that student's document; \<open>saved\<close> holds the ids saved so far.
\<close>

fun savesPrecedeAttempts :: "nat list \<Rightarrow> event list \<Rightarrow> bool" where
  "savesPrecedeAttempts saved [] = True"
| "savesPrecedeAttempts saved (Saved i # es) = savesPrecedeAttempts (i # saved) es"
| "savesPrecedeAttempts saved (Attempt i r # es) = (i \<in> set saved \<and> savesPrecedeAttempts saved es)"
| "savesPrecedeAttempts saved (e # es) = savesPrecedeAttempts saved es"

text \<open>
  The stored percentage is the double computed from the history as it stands: the
  records with status \<open>present\<close> or \<open>entered\<close> over all records.
\<close>

definition percentageCurrent :: "student \<Rightarrow> bool" where
  "percentageCurrent s \<longleftrightarrow>
     attendancePercentage s =
       doublePercentage (spec_attendanceCount (attendanceHistory s)) (length (attendanceHistory s))"

text \<open>At most one record per local calendar day.\<close>

definition onePerDay :: "int \<Rightarrow> student \<Rightarrow> bool" where
  "onePerDay tz s \<longleftrightarrow> distinct (map (\<lambda>r. toDateString tz (date r)) (attendanceHistory s))"

text \<open>The operations that change the ledger, each with the clock reading it runs at.\<close>

datatype operation =
    Scan int scan_request
  | ManualMark int mark_request
  | CutoffSweep int
  | BacklogSweep int
  | PreviousDaySweep int
  | AutoCheckout int

fun applyOperation :: "int \<Rightarrow> sender \<Rightarrow> ledger \<Rightarrow> operation \<Rightarrow> ledger" where
  "applyOperation tz send db (Scan now req) = snd (markAttendance tz now req db)"
| "applyOperation tz send db (ManualMark now req) = snd (markStudentAttendance tz now req db)"
| "applyOperation tz send db (CutoffSweep now) = fst (autoMarkLeaveAttendance tz now send db)"
| "applyOperation tz send db (BacklogSweep now) = fst (checkAllPastAttendance tz now send db)"
| "applyOperation tz send db (PreviousDaySweep now) = fst (checkPreviousDayAttendance tz now send db)"
| "applyOperation tz send db (AutoCheckout now) = fst (runAutoCheckout tz now db)"

definition runOperations :: "int \<Rightarrow> sender \<Rightarrow> operation list \<Rightarrow> ledger \<Rightarrow> ledger" where
  "runOperations tz send ops db = foldl (applyOperation tz send) db ops"

text \<open>
  The record of the scan's day: the index the controller finds by ISO date is also the
  one the model method finds by local day (\<open>None\<close> when neither finds a record).
\<close>

definition recordOfScanDay :: "int \<Rightarrow> int \<Rightarrow> attendance_record list \<Rightarrow> nat option \<Rightarrow> bool" where
  "recordOfScanDay tz now h k \<longleftrightarrow>
     todayAttendanceIndex now h = k \<and>
     findIndex (\<lambda>r. toDateString tz (date r) = toDateString tz (setHours tz now 0 0 0 0)) h = k"

text \<open>Both times are set and the entry is strictly before the leave.\<close>

definition entryBeforeLeave :: "attendance_record \<Rightarrow> bool" where
  "entryBeforeLeave r \<longleftrightarrow>
     (case entryTime r of
        None \<Rightarrow> False
      | Some e \<Rightarrow> (case leaveTime r of None \<Rightarrow> False | Some l \<Rightarrow> e < l))"

text \<open>A scan request that names student \<open>i\<close> and passes the controller's checks.\<close>

definition scanOf :: "nat \<Rightarrow> scan_request" where
  "scanOf i = \<lparr>scan_id = Some i, scan_indexNumber = ''S'', scan_name = ''N'', scan_hashValid = True\<rparr>"

text \<open>The closed status enumeration of the specification's data model.\<close>

definition spec_statusEnum :: "string list" where
  "spec_statusEnum = [''entered'', ''left'', ''present'', ''absent'', ''late'']"

section \<open>Concrete ledgers\<close>

text \<open>
  A process in Asia/Colombo (UTC+05:30). Day 10 starts at local midnight \<open>844200000\<close>,
  day 12 at \<open>1017000000\<close>, day 13 at \<open>1103400000\<close>.
\<close>

definition colombo :: int where
  "colombo = 19800000"

definition alwaysSent :: sender where
  "alwaysSent i p = Sent"

definition alwaysThrows :: sender where
  "alwaysThrows i p = SendThrows"

definition studentWith :: "attendance_record list \<Rightarrow> int option \<Rightarrow> student" where
  "studentWith h l =
     \<lparr>name = ''N'', indexNumber = ''S'', student_status = ''active'', parent_telephone = Some ''94770000000'',
      attendanceHistory = h, attendanceCount = 0, attendancePercentage = 0, lastAttendance = l\<rparr>"

text \<open>Entered on day 10 at 08:00 and never scanned out.\<close>

definition openDay10 :: attendance_record where
  "openDay10 = \<lparr>date = 844200000, status = ''entered'', entryTime = Some 873000000, leaveTime = None\<rparr>"

text \<open>The same day after an administrator marked it \<open>absent\<close>: entry time set, no leave time.\<close>

definition absentDay10 :: attendance_record where
  "absentDay10 = \<lparr>date = 844200000, status = ''absent'', entryTime = Some 873000000, leaveTime = None\<rparr>"

text \<open>Day 12, entered at 08:00 and left at 15:00.\<close>

definition closedDay12 :: attendance_record where
  "closedDay12 = \<lparr>date = 1017000000, status = ''left'', entryTime = Some 1045800000, leaveTime = Some 1071000000\<rparr>"

text \<open>A record stamped on day 13 at 02:00 local time, which is 20:30 of day 12 in UTC.\<close>

definition earlyDay13 :: attendance_record where
  "earlyDay13 = \<lparr>date = 1110600000, status = ''entered'', entryTime = Some 1110600000, leaveTime = None\<rparr>"

text \<open>Day 11, entered at 08:00, left at 15:00 and marked \<open>present\<close> afterwards.\<close>

definition presentDay11 :: attendance_record where
  "presentDay11 = \<lparr>date = 930600000, status = ''present'', entryTime = Some 959400000, leaveTime = Some 984600000\<rparr>"

text \<open>Day 13, dated at its local midnight (18:30 of day 12 in UTC), entered at 08:00.\<close>

definition enteredDay13 :: attendance_record where
  "enteredDay13 = \<lparr>date = 1103400000, status = ''entered'', entryTime = Some 1132200000, leaveTime = None\<rparr>"

text \<open>The same record after a second scan at 10:00 was taken for an entry.\<close>

definition reenteredDay13 :: attendance_record where
  "reenteredDay13 = \<lparr>date = 1103400000, status = ''entered'', entryTime = Some 1139400000, leaveTime = None\<rparr>"

text \<open>Day 13 at 10:00 local time.\<close>

definition day13Morning :: int where
  "day13Morning = 1139400000"

text \<open>
  A process in UTC. Day 13 starts at \<open>1123200000\<close>; the student scans at 09:00
  (\<open>1155600000\<close>), at 15:00 (\<open>1177200000\<close>) and at 16:00 (\<open>1180800000\<close>).
\<close>

definition utcEntered :: attendance_record where
  "utcEntered = \<lparr>date = 1123200000, status = ''entered'', entryTime = Some 1155600000, leaveTime = None\<rparr>"

definition utcLeft :: attendance_record where
  "utcLeft = \<lparr>date = 1123200000, status = ''left'', entryTime = Some 1155600000, leaveTime = Some 1177200000\<rparr>"

definition utcReopened :: attendance_record where
  "utcReopened = \<lparr>date = 1123200000, status = ''entered'', entryTime = Some 1180800000, leaveTime = None\<rparr>"

text \<open>A record of day 13 made by an administrative mark: neither time is set.\<close>

definition utcMarkedPresent :: attendance_record where
  "utcMarkedPresent = \<lparr>date = 1123200000, status = ''present'', entryTime = None, leaveTime = None\<rparr>"

text \<open>
  Two students with two of three records counted, stored as the double of \<open>2 / 3 * 100\<close>:
  one with an open record from day 10, seen by the backlog sweep of day 13, and one with
  an open record of day 13, seen by that day's cutoff sweep.
\<close>

definition backlogStudent :: student where
  "backlogStudent =
     (studentWith [openDay10, presentDay11, closedDay12] (Some 1071000000))
       \<lparr>attendanceCount := 2, attendancePercentage := 2345624805922133 / 35184372088832\<rparr>"

definition cutoffStudent :: student where
  "cutoffStudent =
     (studentWith [presentDay11, closedDay12, enteredDay13] (Some 1132200000))
       \<lparr>attendanceCount := 2, attendancePercentage := 2345624805922133 / 35184372088832\<rparr>"

text \<open>
  Twenty days in Colombo, day \<open>d\<close> starting at \<open>d * 86400000 - 19800000\<close>: present on days
  1 to 11, left on days 12 to 19, and entered on day 20 without scanning out.
\<close>

definition presentOn :: "nat \<Rightarrow> attendance_record" where
  "presentOn d =
     \<lparr>date = int d * 86400000 - 19800000, status = ''present'',
      entryTime = Some (int d * 86400000 + 9000000), leaveTime = Some (int d * 86400000 + 34200000)\<rparr>"

definition leftOn :: "nat \<Rightarrow> attendance_record" where
  "leftOn d =
     \<lparr>date = int d * 86400000 - 19800000, status = ''left'',
      entryTime = Some (int d * 86400000 + 9000000), leaveTime = Some (int d * 86400000 + 34200000)\<rparr>"

definition openOn :: "nat \<Rightarrow> attendance_record" where
  "openOn d =
     \<lparr>date = int d * 86400000 - 19800000, status = ''entered'',
      entryTime = Some (int d * 86400000 + 9000000), leaveTime = None\<rparr>"

definition twentyDays :: "attendance_record list" where
  "twentyDays = map presentOn [1..<12] @ map leftOn [12..<20] @ [openOn 20]"

text \<open>Day 25 at 10:00 local time.\<close>

definition day25Morning :: int where
  "day25Morning = 2176200000"

section \<open>The sweeps as maps over the ledger\<close>

lemma fst_logEvent [simp]: "fst (logEvent e w) = fst w"
  by (simp add: logEvent_def)

lemma fst_save [simp]: "fst (save i s w) = (fst w)[i := s]"
  by (simp add: save_def)

lemma fst_snd_notifyParent [simp]: "fst (snd (notifyParent send i s w)) = fst w"
  by (simp add: notifyParent_def split: option.splits send_outcome.splits)

lemma fst_catchStudent [simp]: "fst (catchStudent i rw) = fst (snd rw)"
  by (simp add: catchStudent_def split: sum.splits)

lemma forEachStudent_Nil [simp]: "forEachStudent body [] w = w"
  by (simp add: forEachStudent_def)

lemma forEachStudent_Cons [simp]:
  "forEachStudent body ((i, s) # ps) w = forEachStudent body ps (catchStudent i (body i s w))"
  by (simp add: forEachStudent_def)

lemma forEachStudent_ledger:
  assumes body: "\<And>i s w. fst (snd (body i s w)) = (if g s then (fst w)[i := f s] else fst w)"
  shows "distinct (map fst ps) \<Longrightarrow>
         length (fst (forEachStudent body ps w)) = length (fst w) \<and>
         (\<forall>k < length (fst w).
            fst (forEachStudent body ps w) ! k =
              (case map_of ps k of Some s \<Rightarrow> if g s then f s else fst w ! k | None \<Rightarrow> fst w ! k))"
proof (induction ps arbitrary: w)
  case Nil
  then show ?case by simp
next
  case (Cons p ps)
  obtain i s where p: "p = (i, s)" by (cases p)
  let ?w = "catchStudent i (body i s w)"
  have len: "length (fst ?w) = length (fst w)"
    by (simp add: body)
  have d: "distinct (map fst ps)" and notin: "i \<notin> fst ` set ps"
    using Cons.prems by (auto simp: p)
  have none: "map_of ps i = None"
    using notin by (simp add: map_of_eq_None_iff)
  from Cons.IH [OF d, of ?w] len
  have IH: "length (fst (forEachStudent body ps ?w)) = length (fst w)"
    "\<And>k. k < length (fst w) \<Longrightarrow> fst (forEachStudent body ps ?w) ! k =
       (case map_of ps k of Some s \<Rightarrow> if g s then f s else fst ?w ! k | None \<Rightarrow> fst ?w ! k)"
    by auto
  show ?case
  proof (intro conjI allI impI)
    show "length (fst (forEachStudent body (p # ps) w)) = length (fst w)"
      by (simp add: p IH)
  next
    fix k assume k: "k < length (fst w)"
    show "fst (forEachStudent body (p # ps) w) ! k =
       (case map_of (p # ps) k of Some s \<Rightarrow> if g s then f s else fst w ! k | None \<Rightarrow> fst w ! k)"
    proof (cases "k = i")
      case True
      then show ?thesis using k none by (simp add: p IH body)
    next
      case False
      then show ?thesis using k by (simp add: p IH body split: option.splits)
    qed
  qed
qed

lemma distinct_Student_find [simp]: "distinct (map fst (Student_find q db))"
  by (simp add: Student_find_def distinct_map_filter)

lemma map_of_Student_find:
  "map_of (Student_find q db) k = (if k < length db \<and> q (db ! k) then Some (db ! k) else None)"
proof (cases "k < length db \<and> q (db ! k)")
  case True
  then have "(k, db ! k) \<in> set (Student_find q db)"
    by (simp add: Student_find_def in_set_enumerate_eq)
  then have "map_of (Student_find q db) k = Some (db ! k)"
    by (simp add: map_of_is_SomeI)
  with True show ?thesis by simp
next
  case False
  have "k \<notin> fst ` set (Student_find q db)"
  proof
    assume "k \<in> fst ` set (Student_find q db)"
    then obtain s where "(k, s) \<in> set (Student_find q db)" by force
    then have "k < length db \<and> q (db ! k)"
      by (auto simp: Student_find_def in_set_enumerate_eq)
    with False show False by simp
  qed
  then have "map_of (Student_find q db) k = None" by (simp add: map_of_eq_None_iff)
  with False show ?thesis by simp
qed

lemma forEachStudent_Student_find:
  assumes body: "\<And>i s w. fst (snd (body i s w)) = (if g s then (fst w)[i := f s] else fst w)"
    and idle: "\<And>s. \<not> (q s \<and> g s) \<Longrightarrow> f s = s"
  shows "fst (forEachStudent body (Student_find q db) (db, ev)) = map f db"
proof (rule nth_equalityI)
  show "length (fst (forEachStudent body (Student_find q db) (db, ev))) = length (map f db)"
    using forEachStudent_ledger [of body g f "Student_find q db" "(db, ev)", OF body] by simp
next
  fix k assume "k < length (fst (forEachStudent body (Student_find q db) (db, ev)))"
  then have k: "k < length db"
    using forEachStudent_ledger [of body g f "Student_find q db" "(db, ev)", OF body] by simp
  then show "fst (forEachStudent body (Student_find q db) (db, ev)) ! k = map f db ! k"
    using forEachStudent_ledger [of body g f "Student_find q db" "(db, ev)", OF body] idle
    by (auto simp: map_of_Student_find)
qed

lemma closePastRecords_idle:
  "filter (incompleteBefore today) (attendanceHistory s) = [] \<Longrightarrow> closePastRecords tz today s = s"
  by (simp add: closePastRecords_def)

lemma pastBody_ledger:
  "fst (snd (pastBody tz today send i s w)) =
     (if filter (incompleteBefore today) (attendanceHistory s) \<noteq> [] then (fst w)[i := closePastRecords tz today s] else fst w)"
  by (simp add: pastBody_def Let_def split: sum.splits)

lemma checkAllPastAttendance_ledger:
  "fst (checkAllPastAttendance tz now send db) = map (closePastRecords tz (setHours tz now 0 0 0 0)) db"
proof -
  let ?today = "setHours tz now 0 0 0 0"
  let ?q = "\<lambda>s. \<exists>record \<in> set (attendanceHistory s). incompleteBefore ?today record"
  have all: "fst (forEachStudent (pastBody tz ?today send) (Student_find ?q db) (db, [])) = map (closePastRecords tz ?today) db"
    by (rule forEachStudent_Student_find [where g = "\<lambda>s. filter (incompleteBefore ?today) (attendanceHistory s) \<noteq> []"])
       (auto simp: pastBody_ledger closePastRecords_idle)
  show ?thesis
  proof (cases "Student_find ?q db = []")
    case True
    then have "fst (forEachStudent (pastBody tz ?today send) (Student_find ?q db) (db, [])) = db" by simp
    with all True show ?thesis by (simp add: checkAllPastAttendance_def Let_def)
  next
    case False
    with all show ?thesis by (simp add: checkAllPastAttendance_def Let_def)
  qed
qed


lemma msPerDay_pos [simp]: "0 < msPerDay"
  by (simp add: msPerDay_def)

lemma setHours_local_day:
  assumes "0 \<le> ((h * 60 + m) * 60 + s) * 1000 + ms" "((h * 60 + m) * 60 + s) * 1000 + ms < msPerDay"
  shows "toDateString tz (setHours tz d h m s ms) = toDateString tz d"
    and "(setHours tz d h m s ms + tz) mod msPerDay = ((h * 60 + m) * 60 + s) * 1000 + ms"
proof -
  let ?o = "((h * 60 + m) * 60 + s) * 1000 + ms"
  have eq: "setHours tz d h m s ms + tz = ?o + ((d + tz) div msPerDay) * msPerDay"
    by (simp add: setHours_def minus_mod_eq_div_mult [symmetric])
  show "toDateString tz (setHours tz d h m s ms) = toDateString tz d"
    unfolding toDateString_def eq using assms by (simp add: div_pos_pos_trivial)
  show "(setHours tz d h m s ms + tz) mod msPerDay = ?o"
    unfolding eq using assms by (simp add: mod_pos_pos_trivial)
qed

lemma closePastRecords_history:
  "attendanceHistory (closePastRecords tz today s) =
     map (\<lambda>record. if incompleteBefore today record then closeAtOwnDate tz record else record) (attendanceHistory s)"
proof (cases "filter (incompleteBefore today) (attendanceHistory s) = []")
  case True
  then have "\<forall>record \<in> set (attendanceHistory s). \<not> incompleteBefore today record"
    by (simp add: filter_empty_conv)
  then have "map (\<lambda>record. if incompleteBefore today record then closeAtOwnDate tz record else record) (attendanceHistory s)
             = attendanceHistory s"
    by (simp add: map_idI)
  with True show ?thesis by (simp add: closePastRecords_def)
next
  case False
  then show ?thesis by (simp add: closePastRecords_def Let_def)
qed

lemma findIndex_None: "findIndex p xs = None \<longleftrightarrow> (\<forall>x \<in> set xs. \<not> p x)"
  by (induction xs) auto

lemma findIndex_Some:
  "findIndex p xs = Some k \<Longrightarrow> k < length xs \<and> p (xs ! k) \<and> (\<forall>j < k. \<not> p (xs ! j))"
proof (induction xs arbitrary: k)
  case Nil
  then show ?case by simp
next
  case (Cons x xs)
  show ?case
  proof (cases "p x")
    case True
    with Cons.prems show ?thesis by simp
  next
    case False
    with Cons.prems obtain k' where k': "findIndex p xs = Some k'" "k = Suc k'"
      by auto
    from Cons.IH [OF k'(1)] False k'(2) show ?thesis
      by (auto simp: nth_Cons split: nat.splits)
  qed
qed

lemma local_midnight:
  "(setHours tz d 0 0 0 0 + tz) = ((d + tz) div msPerDay) * msPerDay"
  by (simp add: setHours_def minus_mod_eq_div_mult [symmetric])

lemma same_local_day_range:
  assumes "toDateString tz d = toDateString tz (setHours tz now 0 0 0 0)"
  shows "setHours tz now 0 0 0 0 \<le> d \<and> d < setHours tz now 0 0 0 0 + 24 * 60 * 60 * 1000"
proof -
  let ?t = "setHours tz now 0 0 0 0"
  have t: "?t + tz = ((now + tz) div msPerDay) * msPerDay" by (rule local_midnight)
  then have q: "(?t + tz) div msPerDay = (now + tz) div msPerDay" by simp
  with assms have dd: "(d + tz) div msPerDay = (now + tz) div msPerDay"
    by (simp add: toDateString_def)
  have "d + tz = ((d + tz) div msPerDay) * msPerDay + (d + tz) mod msPerDay" by simp
  moreover have "0 \<le> (d + tz) mod msPerDay" "(d + tz) mod msPerDay < msPerDay" by simp_all
  ultimately have "?t + tz \<le> d + tz \<and> d + tz < ?t + tz + msPerDay"
    unfolding t dd by linarith
  then show ?thesis by (simp add: msPerDay_def)
qed

lemma eligibleToday_query:
  assumes "findIndex (eligibleToday tz (setHours tz now 0 0 0 0)) (attendanceHistory s) = Some k"
  shows "autoMarkQuery (setHours tz now 0 0 0 0) s"
proof -
  let ?r = "attendanceHistory s ! k"
  from findIndex_Some [OF assms] have k: "k < length (attendanceHistory s)"
    and e: "eligibleToday tz (setHours tz now 0 0 0 0) ?r" by auto
  then have mem: "?r \<in> set (attendanceHistory s)" by simp
  from e same_local_day_range [of tz "date ?r" now]
  have "setHours tz now 0 0 0 0 \<le> date ?r" "date ?r < setHours tz now 0 0 0 0 + 24 * 60 * 60 * 1000"
    "status ?r \<in> set [''entered'', ''present'']" "leaveTime ?r = None"
    by (auto simp: eligibleToday_def)
  with mem show ?thesis unfolding autoMarkQuery_def by blast
qed

lemma eligibleYesterday_query:
  assumes "findIndex (eligibleYesterday y ye) (attendanceHistory s) = Some k"
  shows "previousDayQuery y ye s"
proof -
  let ?r = "attendanceHistory s ! k"
  from findIndex_Some [OF assms] have k: "k < length (attendanceHistory s)"
    and e: "eligibleYesterday y ye ?r" by auto
  then have mem: "?r \<in> set (attendanceHistory s)" by simp
  from e have "y \<le> date ?r" "date ?r < ye" "status ?r \<in> set [''entered'', ''present'']" "leaveTime ?r = None"
    by (auto simp: eligibleYesterday_def)
  with mem show ?thesis unfolding previousDayQuery_def by blast
qed

lemma fst_snd_autoMarkBody:
  "fst (snd (autoMarkBody tz today lt send i s w)) =
     (if findIndex (eligibleToday tz today) (attendanceHistory s) \<noteq> None
      then (fst w)[i := (case findIndex (eligibleToday tz today) (attendanceHistory s) of None \<Rightarrow> s | Some k \<Rightarrow> markLeftAt k lt s)]
      else fst w)"
  by (simp add: autoMarkBody_def Let_def split: option.splits sum.splits)

lemma autoMarkLeaveAttendance_ledger:
  "fst (autoMarkLeaveAttendance tz now send db) = map (closeToday tz now) db"
proof -
  let ?today = "setHours tz now 0 0 0 0"
  let ?lt = "setHours tz now 18 30 0 0"
  have all: "fst (forEachStudent (autoMarkBody tz ?today ?lt send) (Student_find (autoMarkQuery ?today) db) (db, []))
             = map (closeToday tz now) db"
    by (rule forEachStudent_Student_find
          [where g = "\<lambda>s. findIndex (eligibleToday tz ?today) (attendanceHistory s) \<noteq> None"])
       (auto simp: fst_snd_autoMarkBody closeToday_def eligibleToday_query split: option.splits)
  show ?thesis
  proof (cases "Student_find (autoMarkQuery ?today) db = []")
    case True
    then have "fst (forEachStudent (autoMarkBody tz ?today ?lt send) (Student_find (autoMarkQuery ?today) db) (db, [])) = db"
      by simp
    with all True show ?thesis by (simp add: autoMarkLeaveAttendance_def Let_def)
  next
    case False
    with all show ?thesis by (simp add: autoMarkLeaveAttendance_def Let_def)
  qed
qed

lemma fst_snd_previousDayBody:
  "fst (snd (previousDayBody y ye lt send i s w)) =
     (if findIndex (eligibleYesterday y ye) (attendanceHistory s) \<noteq> None
      then (fst w)[i := (case findIndex (eligibleYesterday y ye) (attendanceHistory s) of None \<Rightarrow> s | Some k \<Rightarrow> markLeftAt k lt s)]
      else fst w)"
  by (simp add: previousDayBody_def Let_def split: option.splits sum.splits)

lemma checkPreviousDayAttendance_ledger:
  "fst (checkPreviousDayAttendance tz now send db) =
     map (closeYesterday tz now) (map (closePastRecords tz (setHours tz now 0 0 0 0)) db)"
proof -
  let ?y = "setHours tz (now - msPerDay) 0 0 0 0"
  let ?ye = "setHours tz ?y 23 59 59 999"
  let ?lt = "setHours tz ?y 18 30 0 0"
  let ?w0 = "checkAllPastAttendance tz now send db"
  let ?db0 = "map (closePastRecords tz (setHours tz now 0 0 0 0)) db"
  have w0: "?w0 = (?db0, snd ?w0)"
    using checkAllPastAttendance_ledger [of tz now send db] by (metis prod.collapse)
  have all: "fst (forEachStudent (previousDayBody ?y ?ye ?lt send) (Student_find (previousDayQuery ?y ?ye) ?db0) (?db0, snd ?w0))
             = map (closeYesterday tz now) ?db0"
    by (rule forEachStudent_Student_find
          [where g = "\<lambda>s. findIndex (eligibleYesterday ?y ?ye) (attendanceHistory s) \<noteq> None"])
       (auto simp: fst_snd_previousDayBody closeYesterday_def Let_def eligibleYesterday_query split: option.splits)
  show ?thesis
  proof (cases "Student_find (previousDayQuery ?y ?ye) ?db0 = []")
    case True
    then have "fst (forEachStudent (previousDayBody ?y ?ye ?lt send) (Student_find (previousDayQuery ?y ?ye) ?db0) (?db0, snd ?w0)) = ?db0"
      by simp
    with all True show ?thesis
      by (simp add: checkPreviousDayAttendance_def Let_def checkAllPastAttendance_ledger)
  next
    case False
    have "checkPreviousDayAttendance tz now send db =
          forEachStudent (previousDayBody ?y ?ye ?lt send) (Student_find (previousDayQuery ?y ?ye) ?db0) ?w0"
      using False by (simp add: checkPreviousDayAttendance_def Let_def checkAllPastAttendance_ledger)
    with all w0 show ?thesis by simp
  qed
qed

section \<open>Closing at the record's own date\<close>

text \<open>
  Claim C2, as the code has it. The backlog sweep closes every record dated before today's
  local midnight whose status is \<open>entered\<close> or \<open>present\<close> and whose leave time is unset:
  the record gets status \<open>left\<close> and a leave time at 18:30 local time on the local
  calendar day of its own date, whatever the clock of the sweep; its date and entry time
  stay. Every other record of the ledger is left as it was, whether or not it has an entry
  time.
\<close>

theorem backlog_sweep_closes_at_own_date:
  assumes i: "i < length db" and k: "k < length (attendanceHistory (db ! i))"
  shows "(incompleteBefore (setHours tz now 0 0 0 0) (attendanceHistory (db ! i) ! k) \<longrightarrow>
            status (attendanceHistory (fst (checkAllPastAttendance tz now send db) ! i) ! k) = ''left'' \<and>
            date (attendanceHistory (fst (checkAllPastAttendance tz now send db) ! i) ! k) = date (attendanceHistory (db ! i) ! k) \<and>
            entryTime (attendanceHistory (fst (checkAllPastAttendance tz now send db) ! i) ! k) = entryTime (attendanceHistory (db ! i) ! k) \<and>
            (\<exists>t. leaveTime (attendanceHistory (fst (checkAllPastAttendance tz now send db) ! i) ! k) = Some t \<and>
                 toDateString tz t = toDateString tz (date (attendanceHistory (db ! i) ! k)) \<and>
                 (t + tz) mod msPerDay = (18 * 60 + 30) * 60 * 1000)) \<and>
         (\<not> incompleteBefore (setHours tz now 0 0 0 0) (attendanceHistory (db ! i) ! k) \<longrightarrow>
            attendanceHistory (fst (checkAllPastAttendance tz now send db) ! i) ! k = attendanceHistory (db ! i) ! k)"
proof -
  let ?today = "setHours tz now 0 0 0 0"
  let ?r = "attendanceHistory (db ! i) ! k"
  have r': "attendanceHistory (fst (checkAllPastAttendance tz now send db) ! i) ! k =
            (if incompleteBefore ?today ?r then closeAtOwnDate tz ?r else ?r)"
    using i k by (simp add: checkAllPastAttendance_ledger closePastRecords_history)
  have day: "toDateString tz (setHours tz (date ?r) 18 30 0 0) = toDateString tz (date ?r)"
    by (rule setHours_local_day) (simp_all add: msPerDay_def)
  have clock: "(setHours tz (date ?r) 18 30 0 0 + tz) mod msPerDay = (18 * 60 + 30) * 60 * 1000"
    using setHours_local_day(2) [of 18 30 0 0 tz "date ?r"] by (simp add: msPerDay_def)
  show ?thesis
    unfolding r' using day clock by (simp add: closeAtOwnDate_def)
qed


lemma ex_today: "setHours colombo day13Morning 0 0 0 0 = 1103400000"
  by (simp add: setHours_def colombo_def day13Morning_def msPerDay_def)

lemma ex_today_num: "setHours 19800000 1139400000 0 0 0 0 = 1103400000"
  by (simp add: setHours_def msPerDay_def)

lemma ex_cutoff_day10: "setHours 19800000 844200000 18 30 0 0 = 910800000"
  by (simp add: setHours_def msPerDay_def)

theorem backlog_sweep_closes_at_own_date_witness:
  "0 < length [studentWith [openDay10] None] \<and>
   0 < length (attendanceHistory ([studentWith [openDay10] None] ! 0)) \<and>
   incompleteBefore (setHours colombo day13Morning 0 0 0 0) (attendanceHistory ([studentWith [openDay10] None] ! 0) ! 0) \<and>
   status (attendanceHistory (fst (checkAllPastAttendance colombo day13Morning alwaysThrows [studentWith [openDay10] None]) ! 0) ! 0) = ''left'' \<and>
   (\<exists>t. leaveTime (attendanceHistory (fst (checkAllPastAttendance colombo day13Morning alwaysThrows [studentWith [openDay10] None]) ! 0) ! 0) = Some t \<and>
        toDateString colombo t = toDateString colombo (date openDay10) \<and>
        (t + colombo) mod msPerDay = (18 * 60 + 30) * 60 * 1000)"
  using backlog_sweep_closes_at_own_date [of 0 "[studentWith [openDay10] None]" 0 colombo day13Morning alwaysThrows]
  by (simp add: ex_today incompleteBefore_def studentWith_def openDay10_def)

text \<open>
  A record with an entry time, no leave time and status \<open>absent\<close>, three days old, is
  still open after the sweep.
\<close>

theorem open_absent_record_not_swept:
  "entryTime absentDay10 = Some 873000000 \<and> leaveTime absentDay10 = None \<and>
   date absentDay10 < setHours colombo day13Morning 0 0 0 0 \<and>
   attendanceHistory (fst (checkAllPastAttendance colombo day13Morning alwaysSent [studentWith [absentDay10] None]) ! 0) ! 0
     = absentDay10"
  by (simp add: checkAllPastAttendance_ledger ex_today closePastRecords_history incompleteBefore_def
      studentWith_def absentDay10_def)


section \<open>Notification failures\<close>

lemma savesPrecedeAttempts_mono:
  "savesPrecedeAttempts a es \<Longrightarrow> set a \<subseteq> set b \<Longrightarrow> savesPrecedeAttempts b es"
proof (induction a es arbitrary: b rule: savesPrecedeAttempts.induct)
  case (2 saved i es)
  from "2.prems" have "set (i # saved) \<subseteq> set (i # b)" by auto
  with "2.IH" [of "i # b"] "2.prems" show ?case by simp
qed auto

lemma savesPrecedeAttempts_append:
  "savesPrecedeAttempts a xs \<Longrightarrow> savesPrecedeAttempts [] ys \<Longrightarrow> savesPrecedeAttempts a (xs @ ys)"
proof (induction a xs rule: savesPrecedeAttempts.induct)
  case (1 saved)
  then show ?case using savesPrecedeAttempts_mono [of "[]" ys saved] by simp
qed auto

lemma snd_logEvent [simp]: "snd (logEvent e w) = snd w @ [e]"
  by (simp add: logEvent_def)

lemma snd_save [simp]: "snd (save i s w) = snd w @ [Saved i]"
  by (simp add: save_def)

lemma saved_then_notified:
  assumes "savesPrecedeAttempts [] (snd w)"
  shows "savesPrecedeAttempts []
           (snd (catchStudent i
              (case fst (notifyParent send i s' (save i s' w)) of
                 Inl e \<Rightarrow> notifyParent send i s' (save i s' w)
               | Inr u \<Rightarrow> (Inr (), logEvent (Marked i) (snd (notifyParent send i s' (save i s' w)))))))"
proof -
  have "\<exists>es. snd (catchStudent i
              (case fst (notifyParent send i s' (save i s' w)) of
                 Inl e \<Rightarrow> notifyParent send i s' (save i s' w)
               | Inr u \<Rightarrow> (Inr (), logEvent (Marked i) (snd (notifyParent send i s' (save i s' w))))))
        = snd w @ es \<and> savesPrecedeAttempts [] es"
    by (cases "send i (the (parent_telephone s'))")
       (auto simp: notifyParent_def catchStudent_def split: option.splits)
  with assms show ?thesis
    by (auto intro: savesPrecedeAttempts_append)
qed

lemma forEachStudent_events:
  assumes "\<And>i s w. P (snd w) \<Longrightarrow> P (snd (catchStudent i (body i s w)))"
  shows "P (snd w) \<Longrightarrow> P (snd (forEachStudent body ps w))"
proof (induction ps arbitrary: w)
  case Nil
  then show ?case by simp
next
  case (Cons p ps)
  obtain i s where p: "p = (i, s)" by (cases p)
  from Cons.prems have "P (snd (catchStudent i (body i s w)))" by (rule assms)
  then have "P (snd (forEachStudent body ps (catchStudent i (body i s w))))" by (rule Cons.IH)
  then show ?case by (simp add: p)
qed

lemma autoMarkBody_events:
  "savesPrecedeAttempts [] (snd w) \<Longrightarrow>
   savesPrecedeAttempts [] (snd (catchStudent i (autoMarkBody tz today lt send i s w)))"
proof (cases "findIndex (eligibleToday tz today) (attendanceHistory s)")
  case None
  assume "savesPrecedeAttempts [] (snd w)"
  then have "savesPrecedeAttempts [] (snd w @ [NoEligibleRecord i])"
    by (rule savesPrecedeAttempts_append) simp
  with None show ?thesis by (simp add: autoMarkBody_def catchStudent_def)
next
  case (Some k)
  assume "savesPrecedeAttempts [] (snd w)"
  from saved_then_notified [OF this, of i send "markLeftAt k lt s"] Some
  show ?thesis by (simp add: autoMarkBody_def Let_def)
qed

lemma pastBody_events:
  "savesPrecedeAttempts [] (snd w) \<Longrightarrow>
   savesPrecedeAttempts [] (snd (catchStudent i (pastBody tz today send i s w)))"
proof (cases "length (filter (incompleteBefore today) (attendanceHistory s)) > 0")
  case False
  assume "savesPrecedeAttempts [] (snd w)"
  with False show ?thesis by (simp add: pastBody_def catchStudent_def)
next
  case True
  assume "savesPrecedeAttempts [] (snd w)"
  from saved_then_notified [OF this, of i send "closePastRecords tz today s"] True
  show ?thesis by (simp add: pastBody_def Let_def)
qed

lemma previousDayBody_events:
  "savesPrecedeAttempts [] (snd w) \<Longrightarrow>
   savesPrecedeAttempts [] (snd (catchStudent i (previousDayBody y ye lt send i s w)))"
proof (cases "findIndex (eligibleYesterday y ye) (attendanceHistory s)")
  case None
  assume "savesPrecedeAttempts [] (snd w)"
  with None show ?thesis by (simp add: previousDayBody_def catchStudent_def)
next
  case (Some k)
  assume "savesPrecedeAttempts [] (snd w)"
  from saved_then_notified [OF this, of i send "markLeftAt k lt s"] Some
  show ?thesis by (simp add: previousDayBody_def Let_def)
qed

lemma autoMarkLeaveAttendance_events:
  "savesPrecedeAttempts [] (snd (autoMarkLeaveAttendance tz now send db))"
proof -
  have "savesPrecedeAttempts [] (snd (forEachStudent (autoMarkBody tz today lt send) ps (db, [])))" for today lt ps
    by (rule forEachStudent_events [where P = "savesPrecedeAttempts []"]) (simp_all add: autoMarkBody_events)
  then show ?thesis by (simp add: autoMarkLeaveAttendance_def Let_def)
qed

lemma checkAllPastAttendance_events:
  "savesPrecedeAttempts [] (snd (checkAllPastAttendance tz now send db))"
proof -
  have "savesPrecedeAttempts [] (snd (forEachStudent (pastBody tz today send) ps (db, [])))" for today ps
    by (rule forEachStudent_events [where P = "savesPrecedeAttempts []"]) (simp_all add: pastBody_events)
  then show ?thesis by (simp add: checkAllPastAttendance_def Let_def)
qed

lemma checkPreviousDayAttendance_events:
  "savesPrecedeAttempts [] (snd (checkPreviousDayAttendance tz now send db))"
proof -
  have "savesPrecedeAttempts [] (snd (forEachStudent (previousDayBody y ye lt send) ps
          (checkAllPastAttendance tz now send db)))" for y ye lt ps
    by (rule forEachStudent_events [where P = "savesPrecedeAttempts []"])
       (simp_all add: previousDayBody_events checkAllPastAttendance_events)
  then show ?thesis
    by (simp add: checkPreviousDayAttendance_def Let_def checkAllPastAttendance_events)
qed

text \<open>
  Claim C6. Whatever \<open>sendTextMessage\<close> does for each student (succeed, report failure or
  throw), the ledger a sweep leaves is the closure applied to every student's document:
  a failed notification undoes nothing and the students after it are still processed.
  In the events of the sweep, each notification attempt comes after the save of that
  student's document.
\<close>

theorem sweep_closure_survives_notification:
  "fst (autoMarkLeaveAttendance tz now send db) = map (closeToday tz now) db \<and>
   savesPrecedeAttempts [] (snd (autoMarkLeaveAttendance tz now send db)) \<and>
   fst (checkAllPastAttendance tz now send db) = map (closePastRecords tz (setHours tz now 0 0 0 0)) db \<and>
   savesPrecedeAttempts [] (snd (checkAllPastAttendance tz now send db)) \<and>
   fst (checkPreviousDayAttendance tz now send db) =
     map (closeYesterday tz now) (map (closePastRecords tz (setHours tz now 0 0 0 0)) db) \<and>
   savesPrecedeAttempts [] (snd (checkPreviousDayAttendance tz now send db))"
  by (simp add: autoMarkLeaveAttendance_ledger checkAllPastAttendance_ledger checkPreviousDayAttendance_ledger
      autoMarkLeaveAttendance_events checkAllPastAttendance_events checkPreviousDayAttendance_events)

text \<open>Two students at the cutoff sweep with a notifier that throws every time: both are saved.\<close>

lemma cutoff_sweep_with_throwing_notifier:
  "snd (autoMarkLeaveAttendance colombo 1171800000 alwaysThrows
          [studentWith [earlyDay13] None, studentWith [earlyDay13] None])
   = [Saved 0, Attempt 0 SendThrows, ErrorProcessing 0, Saved 1, Attempt 1 SendThrows, ErrorProcessing 1]"
  by (simp add: autoMarkLeaveAttendance_def Student_find_def autoMarkQuery_def autoMarkBody_def
      eligibleToday_def toDateString_def setHours_def msPerDay_def colombo_def studentWith_def earlyDay13_def
      markLeftAt_def save_def notifyParent_def alwaysThrows_def logEvent_def catchStudent_def Let_def)


section \<open>Idempotence of the backlog sweep\<close>

lemma not_incomplete_closed [simp]: "\<not> incompleteBefore today (closeAtOwnDate tz r)"
  by (simp add: incompleteBefore_def closeAtOwnDate_def)

lemma parent_telephone_closePastRecords:
  "parent_telephone (closePastRecords tz today s) = parent_telephone s"
  by (simp add: closePastRecords_def Let_def)

lemma same_day_same_midnight:
  "toDateString tz a = toDateString tz b \<Longrightarrow> setHours tz a 0 0 0 0 = setHours tz b 0 0 0 0"
proof -
  assume "toDateString tz a = toDateString tz b"
  then have "(a + tz) div msPerDay = (b + tz) div msPerDay" by (simp add: toDateString_def)
  then have "setHours tz a 0 0 0 0 + tz = setHours tz b 0 0 0 0 + tz"
    by (simp only: local_midnight)
  then show ?thesis by simp
qed

lemma Student_find_empty: "(\<forall>s \<in> set db. \<not> q s) \<Longrightarrow> Student_find q db = []"
  by (auto simp: Student_find_def filter_empty_conv in_set_enumerate_eq)

text \<open>
  Claim C7. A second backlog sweep on the same local calendar day, whatever the notifier,
  returns the ledger of the first sweep unchanged and with no event at all: no student is
  selected, nothing is saved and no notification is attempted.
\<close>

theorem backlog_sweep_idempotent:
  assumes "toDateString tz now' = toDateString tz now"
  shows "checkAllPastAttendance tz now' send' (fst (checkAllPastAttendance tz now send db))
         = (fst (checkAllPastAttendance tz now send db), [])"
proof -
  let ?today = "setHours tz now 0 0 0 0"
  let ?db1 = "map (closePastRecords tz ?today) db"
  have today: "setHours tz now' 0 0 0 0 = ?today"
    using assms by (rule same_day_same_midnight)
  have "\<forall>s \<in> set ?db1. \<not> (\<exists>record \<in> set (attendanceHistory s). incompleteBefore ?today record)"
    by (auto simp: closePastRecords_history split: if_splits)
  then have "Student_find (\<lambda>s. \<exists>record \<in> set (attendanceHistory s). incompleteBefore ?today record) ?db1 = []"
    by (rule Student_find_empty)
  then show ?thesis
    by (simp add: checkAllPastAttendance_ledger checkAllPastAttendance_def [of tz now'] today)
qed

theorem backlog_sweep_idempotent_witness:
  "toDateString colombo (day13Morning + 3600000) = toDateString colombo day13Morning \<and>
   checkAllPastAttendance colombo (day13Morning + 3600000) alwaysSent
     (fst (checkAllPastAttendance colombo day13Morning alwaysSent [studentWith [openDay10, closedDay12] None]))
   = (fst (checkAllPastAttendance colombo day13Morning alwaysSent [studentWith [openDay10, closedDay12] None]), []) \<and>
   snd (checkAllPastAttendance colombo day13Morning alwaysSent [studentWith [openDay10, closedDay12] None])
   = [Saved 0, Attempt 0 Sent, Marked 0]"
proof -
  have d: "toDateString colombo (day13Morning + 3600000) = toDateString colombo day13Morning"
    by (simp add: toDateString_def colombo_def day13Morning_def msPerDay_def)
  have ev: "snd (checkAllPastAttendance colombo day13Morning alwaysSent [studentWith [openDay10, closedDay12] None])
   = [Saved 0, Attempt 0 Sent, Marked 0]"
    by (simp add: checkAllPastAttendance_def ex_today Student_find_def incompleteBefore_def
        studentWith_def openDay10_def closedDay12_def pastBody_def save_def notifyParent_def
        alwaysSent_def logEvent_def catchStudent_def Let_def parent_telephone_closePastRecords)
  from backlog_sweep_idempotent [OF d, of alwaysSent alwaysSent "[studentWith [openDay10, closedDay12] None]"] d ev
  show ?thesis by simp
qed

section \<open>The percentage after a sweep\<close>

lemma roundEven_error: "\<bar>of_int (roundEven m) - m\<bar> \<le> 1 / 2"
proof -
  have "of_int \<lfloor>m\<rfloor> \<le> m" "m < of_int \<lfloor>m\<rfloor> + 1" by linarith+
  then show ?thesis
    by (auto simp: roundEven_def Let_def abs_le_iff)
qed

lemma roundEven_nonneg: "0 \<le> m \<Longrightarrow> 0 \<le> roundEven m"
  by (auto simp: roundEven_def Let_def)

lemma binaryExponent_le:
  assumes "0 < q"
  shows "2 powi (binaryExponent q) \<le> q"
proof -
  obtain a b where ab: "quotient_of q = (a, b)" by force
  then have b: "0 < b" by (rule quotient_of_denom_pos)
  from ab have q: "q = of_int a / of_int b" by (rule quotient_of_div)
  with assms b have a: "0 < a" by (simp add: zero_less_divide_iff)
  let ?e = "bitlen a - bitlen b"
  show ?thesis
  proof (cases "2 powi ?e \<le> q")
    case True
    with ab show ?thesis by (simp add: binaryExponent_def)
  next
    case False
    from bitlen_bounds [OF a] have la: "(2::int) ^ nat (bitlen a - 1) \<le> a" by simp
    from bitlen_bounds [OF b] have lb: "b < (2::int) ^ nat (bitlen b)" by simp
    have pa: "1 \<le> bitlen a" using a by (simp add: bitlen_alt_def)
    have pb: "1 \<le> bitlen b" using b by (simp add: bitlen_alt_def)
    have "?e - 1 = (bitlen a - 1) - bitlen b" by simp
    then have "(2::rat) powi (?e - 1) = 2 powi ((bitlen a - 1) - bitlen b)" by (simp only:)
    also have "\<dots> = 2 powi (bitlen a - 1) / 2 powi (bitlen b)"
      by (rule power_int_diff) simp
    also have "\<dots> = 2 ^ nat (bitlen a - 1) / 2 ^ nat (bitlen b)"
      using pa pb by (simp add: power_int_def)
    also have "\<dots> \<le> of_int a / of_int b"
    proof (rule frac_le)
      from la have "(of_int ((2::int) ^ nat (bitlen a - 1)) :: rat) \<le> of_int a" by (simp only: of_int_le_iff)
      then show "(2::rat) ^ nat (bitlen a - 1) \<le> of_int a" by simp
      from lb have "(of_int b :: rat) \<le> of_int ((2::int) ^ nat (bitlen b))" by (simp only: of_int_le_iff)
      then show "(of_int b :: rat) \<le> 2 ^ nat (bitlen b)" by simp
      show "(0::rat) < of_int b" using b by simp
      show "(0::rat) \<le> of_int a" using a by simp
    qed
    finally have "(2::rat) powi (?e - 1) \<le> q" by (simp add: q)
    with False ab show ?thesis by (simp add: binaryExponent_def)
  qed
qed

lemma binaryExponent_less:
  assumes "0 < q"
  shows "q < 2 powi (binaryExponent q + 1)"
proof -
  obtain a b where ab: "quotient_of q = (a, b)" by force
  then have b: "0 < b" by (rule quotient_of_denom_pos)
  from ab have q: "q = of_int a / of_int b" by (rule quotient_of_div)
  with assms b have a: "0 < a" by (simp add: zero_less_divide_iff)
  let ?e = "bitlen a - bitlen b"
  show ?thesis
  proof (cases "2 powi ?e \<le> q")
    case False
    with ab show ?thesis by (simp add: binaryExponent_def)
  next
    case True
    from bitlen_bounds [OF a] have la: "a < (2::int) ^ nat (bitlen a)" by simp
    from bitlen_bounds [OF b] have lb: "(2::int) ^ nat (bitlen b - 1) \<le> b" by simp
    have pa: "1 \<le> bitlen a" using a by (simp add: bitlen_alt_def)
    have pb: "1 \<le> bitlen b" using b by (simp add: bitlen_alt_def)
    have "of_int a / of_int b < (2::rat) ^ nat (bitlen a) / 2 ^ nat (bitlen b - 1)"
    proof (rule frac_less)
      from la have "(of_int a :: rat) < of_int ((2::int) ^ nat (bitlen a))" by (simp only: of_int_less_iff)
      then show "(of_int a :: rat) < 2 ^ nat (bitlen a)" by simp
      from lb have "(of_int ((2::int) ^ nat (bitlen b - 1)) :: rat) \<le> of_int b" by (simp only: of_int_le_iff)
      then show "(2::rat) ^ nat (bitlen b - 1) \<le> of_int b" by simp
      show "(0::rat) < 2 ^ nat (bitlen b - 1)" by simp
      show "(0::rat) \<le> of_int a" using a by simp
    qed
    also have "\<dots> = 2 powi (bitlen a) / 2 powi (bitlen b - 1)"
      using pa pb by (simp add: power_int_def)
    also have "\<dots> = 2 powi (bitlen a - (bitlen b - 1))"
      by (rule power_int_diff [symmetric]) simp
    also have "bitlen a - (bitlen b - 1) = ?e + 1" by simp
    finally have "q < 2 powi (?e + 1)" by (simp add: q)
    with True ab show ?thesis by (simp add: binaryExponent_def)
  qed
qed

text \<open>The quotient that \<^const>\<open>toDouble\<close> rounds to an integer has 53 bits.\<close>

lemma toDouble_significand:
  assumes "0 < q"
  shows "2 ^ 52 \<le> q / 2 powi (binaryExponent q - 52)" and "q / 2 powi (binaryExponent q - 52) < 2 ^ 53"
proof -
  have u: "(2::rat) powi (binaryExponent q - 52) = 2 powi (binaryExponent q) / 2 ^ 52"
    by (simp add: power_int_diff)
  have v: "(2::rat) powi (binaryExponent q + 1) = 2 powi (binaryExponent q) * 2"
    by (simp add: power_int_add)
  have p: "(0::rat) < 2 powi (binaryExponent q)" by simp
  from binaryExponent_le [OF assms] p show "2 ^ 52 \<le> q / 2 powi (binaryExponent q - 52)"
    unfolding u by (simp add: field_simps)
  from binaryExponent_less [OF assms] p show "q / 2 powi (binaryExponent q - 52) < 2 ^ 53"
    unfolding u v by (simp add: field_simps)
qed

lemma toDouble_error:
  assumes "0 \<le> q"
  shows "\<bar>toDouble q - q\<bar> \<le> q / 2 ^ 53"
proof (cases "q = 0")
  case True
  then show ?thesis by (simp add: toDouble_def)
next
  case False
  with assms have q: "0 < q" by simp
  let ?u = "(2::rat) powi (binaryExponent q - 52)"
  have u: "0 < ?u" by simp
  have "toDouble q - q = (of_int (roundEven (q / ?u)) - q / ?u) * ?u"
    using q u by (simp add: toDouble_def Let_def algebra_simps)
  then have "\<bar>toDouble q - q\<bar> = \<bar>of_int (roundEven (q / ?u)) - q / ?u\<bar> * ?u"
    using u by (simp add: abs_mult)
  also have "\<dots> \<le> (1 / 2) * ?u"
    using roundEven_error [of "q / ?u"] u by (intro mult_right_mono) simp_all
  also have "\<dots> = 2 powi (binaryExponent q) / 2 ^ 53"
    by (simp add: power_int_diff)
  also have "\<dots> \<le> q / 2 ^ 53"
    using binaryExponent_le [OF q] by (simp add: divide_right_mono)
  finally show ?thesis .
qed

lemma toDouble_nonneg: "0 \<le> q \<Longrightarrow> 0 \<le> toDouble q"
proof -
  assume q: "0 \<le> q"
  have "0 \<le> roundEven (q / 2 powi (binaryExponent \<bar>q\<bar> - 52))"
    using q by (intro roundEven_nonneg) simp
  then show ?thesis by (simp add: toDouble_def Let_def)
qed

lemma doublePercentage_error:
  "\<bar>doublePercentage c n - 100 * of_nat c / of_nat n\<bar> \<le> (100 * of_nat c / of_nat n) / 2 ^ 51"
proof (cases "n = 0")
  case True
  then show ?thesis by (simp add: doublePercentage_def)
next
  case False
  define x :: rat where "x = of_nat c / of_nat n"
  define a where "a = toDouble x"
  define b where "b = toDouble (a * 100)"
  have x0: "0 \<le> x" by (simp add: x_def)
  have a0: "0 \<le> a" unfolding a_def using x0 by (rule toDouble_nonneg)
  have ea: "\<bar>a - x\<bar> \<le> x / 9007199254740992"
    unfolding a_def using toDouble_error [OF x0] by simp
  have "0 \<le> a * 100" using a0 by simp
  from toDouble_error [OF this] have eb: "\<bar>b - a * 100\<bar> \<le> a * 100 / 9007199254740992"
    unfolding b_def by simp
  from ea eb a0 x0 have "\<bar>b - 100 * x\<bar> \<le> 100 * x / 2251799813685248"
    by linarith
  moreover have "doublePercentage c n = b"
    using False by (simp add: doublePercentage_def jsTimes_def jsDivide_def a_def b_def x_def)
  ultimately show ?thesis by (simp add: x_def)
qed

lemma recalcPercentage_double:
  "recalcPercentage h = doublePercentage (spec_attendanceCount h) (length h)"
proof -
  have "presentRecords h = spec_attendanceCount h"
    by (simp add: presentRecords_def spec_attendanceCount_def)
  then show ?thesis
    by (simp add: recalcPercentage_def doublePercentage_def)
qed

lemma percentageCurrent_error:
  assumes "percentageCurrent s"
  shows "\<bar>attendancePercentage s - spec_attendancePercentage (attendanceHistory s)\<bar>
         \<le> spec_attendancePercentage (attendanceHistory s) / 2 ^ 51"
proof (cases "attendanceHistory s = []")
  case True
  with assms show ?thesis
    by (simp add: percentageCurrent_def doublePercentage_def spec_attendancePercentage_def)
next
  case False
  with assms doublePercentage_error [of "spec_attendanceCount (attendanceHistory s)" "length (attendanceHistory s)"]
  show ?thesis
    by (simp add: percentageCurrent_def spec_attendancePercentage_def)
qed

lemma markLeftAt_percentage: "percentageCurrent (markLeftAt k lt s)"
  by (simp add: markLeftAt_def percentageCurrent_def recalcPercentage_double Let_def)

lemma closePastRecords_percentage:
  "closePastRecords tz today s = s \<or> percentageCurrent (closePastRecords tz today s)"
  by (simp add: closePastRecords_def percentageCurrent_def recalcPercentage_double Let_def)

lemma closeToday_percentage: "closeToday tz now s = s \<or> percentageCurrent (closeToday tz now s)"
  by (simp add: closeToday_def markLeftAt_percentage split: option.splits)

lemma closeYesterday_percentage: "closeYesterday tz now s = s \<or> percentageCurrent (closeYesterday tz now s)"
  by (simp add: closeYesterday_def Let_def markLeftAt_percentage split: option.splits)

text \<open>A closed record no longer counts.\<close>

lemma count_after_markLeft:
  assumes "k < length h" and "status (h ! k) \<in> set [''entered'', ''present'']"
  shows "spec_attendanceCount (h[k := (h ! k)\<lparr>leaveTime := l, status := ''left''\<rparr>]) = spec_attendanceCount h - 1"
proof -
  have h: "h = take k h @ (h ! k) # drop (Suc k) h"
    using assms(1) by (rule id_take_nth_drop)
  have u: "h[k := (h ! k)\<lparr>leaveTime := l, status := ''left''\<rparr>]
           = take k h @ (h ! k)\<lparr>leaveTime := l, status := ''left''\<rparr> # drop (Suc k) h"
    using assms(1) by (rule upd_conv_take_nth_drop)
  have "spec_attendanceCount (take k h @ (h ! k) # drop (Suc k) h)
        = Suc (spec_attendanceCount (take k h @ (h ! k)\<lparr>leaveTime := l, status := ''left''\<rparr> # drop (Suc k) h))"
    using assms(2) by (auto simp: spec_attendanceCount_def)
  with h u show ?thesis by simp
qed

lemma count_after_closePast:
  "spec_attendanceCount (map (\<lambda>record. if incompleteBefore today record then closeAtOwnDate tz record else record) h)
     + length (filter (incompleteBefore today) h) = spec_attendanceCount h"
  by (induction h) (auto simp: spec_attendanceCount_def incompleteBefore_def closeAtOwnDate_def)

lemma closeToday_count:
  assumes "findIndex (eligibleToday tz (setHours tz now 0 0 0 0)) (attendanceHistory s) = Some k"
  shows "attendancePercentage (closeToday tz now s)
         = doublePercentage (spec_attendanceCount (attendanceHistory s) - 1) (length (attendanceHistory s))"
proof -
  from findIndex_Some [OF assms] have k: "k < length (attendanceHistory s)"
    and "status (attendanceHistory s ! k) \<in> set [''entered'', ''present'']"
    by (simp_all add: eligibleToday_def)
  from count_after_markLeft [OF this] assms show ?thesis
    by (simp add: closeToday_def markLeftAt_def Let_def recalcPercentage_double)
qed

lemma closePastRecords_count:
  assumes "filter (incompleteBefore today) (attendanceHistory s) \<noteq> []"
  shows "attendancePercentage (closePastRecords tz today s)
         = doublePercentage (spec_attendanceCount (attendanceHistory s)
                               - length (filter (incompleteBefore today) (attendanceHistory s)))
             (length (attendanceHistory s))"
proof -
  from count_after_closePast [of today tz "attendanceHistory s"]
  have "spec_attendanceCount (map (\<lambda>record. if incompleteBefore today record then closeAtOwnDate tz record else record)
                                (attendanceHistory s))
        = spec_attendanceCount (attendanceHistory s) - length (filter (incompleteBefore today) (attendanceHistory s))"
    by linarith
  with assms show ?thesis
    by (simp add: closePastRecords_def Let_def recalcPercentage_double)
qed

lemma yesterday_before_today:
  "setHours tz (setHours tz (now - msPerDay) 0 0 0 0) 23 59 59 999 < setHours tz now 0 0 0 0"
proof -
  define t where "t = setHours tz now 0 0 0 0"
  have "now - msPerDay + tz = (now + tz) - msPerDay" by simp
  then have m: "(now - msPerDay + tz) mod msPerDay = (now + tz) mod msPerDay"
    by (simp only: minus_mod_self2)
  have y: "setHours tz (now - msPerDay) 0 0 0 0 = t - msPerDay"
    by (simp add: setHours_def m t_def)
  have "t - msPerDay + tz = ((now + tz) div msPerDay - 1) * msPerDay"
    using local_midnight [of tz now] by (simp add: algebra_simps t_def)
  then have z: "(t - msPerDay + tz) mod msPerDay = 0"
    by simp
  have "setHours tz (t - msPerDay) 23 59 59 999 = t - msPerDay - (t - msPerDay + tz) mod msPerDay + 86399999"
    by (simp add: setHours_def)
  also have "\<dots> < t"
    unfolding z by (simp add: msPerDay_def)
  finally show ?thesis
    unfolding y t_def .
qed

lemma closeYesterday_after_closePast:
  "closeYesterday tz now (closePastRecords tz (setHours tz now 0 0 0 0) s)
   = closePastRecords tz (setHours tz now 0 0 0 0) s"
proof -
  let ?today = "setHours tz now 0 0 0 0"
  let ?y = "setHours tz (now - msPerDay) 0 0 0 0"
  let ?ye = "setHours tz ?y 23 59 59 999"
  have "\<not> eligibleYesterday ?y ?ye r"
    if "r \<in> set (attendanceHistory (closePastRecords tz ?today s))" for r
  proof
    assume e: "eligibleYesterday ?y ?ye r"
    then have "date r < ?today"
      using yesterday_before_today [of tz now] by (simp add: eligibleYesterday_def)
    with e have "incompleteBefore ?today r"
      by (simp add: eligibleYesterday_def incompleteBefore_def)
    moreover from that have "\<not> incompleteBefore ?today r"
      by (auto simp: closePastRecords_history split: if_splits)
    ultimately show False by simp
  qed
  then have "findIndex (eligibleYesterday ?y ?ye) (attendanceHistory (closePastRecords tz ?today s)) = None"
    by (simp add: findIndex_None)
  then show ?thesis by (simp add: closeYesterday_def Let_def)
qed

lemma checkPreviousDayAttendance_is_backlog:
  "fst (checkPreviousDayAttendance tz now send db) = fst (checkAllPastAttendance tz now send' db)"
  by (simp add: checkPreviousDayAttendance_ledger checkAllPastAttendance_ledger closeYesterday_after_closePast)

text \<open>
  Claim C4, as the code has it. After a sweep, every student document the sweep changed
  carries the percentage of its updated history computed in doubles, quotient first:
  the number of records with status \<open>present\<close> or \<open>entered\<close> over the number of
  records, times \<open>100\<close>, each operation rounded to the nearest double. A record the sweep
  closes has status \<open>left\<close> and no longer counts: the cutoff sweep stores the percentage
  of one record less than before, the backlog sweep that of as many less as it closed, and
  the previous-day sweep leaves the ledger of the backlog sweep. The stored double is
  within \<open>1 / 2 ^ 51\<close> of the exact \<open>100 * count / total\<close>, relative to it, and is \<open>0\<close>
  for an empty history.
\<close>

theorem sweeps_recompute_percentage:
  assumes "i < length db"
  shows "(fst (autoMarkLeaveAttendance tz now send db) ! i = db ! i \<or>
          percentageCurrent (fst (autoMarkLeaveAttendance tz now send db) ! i)) \<and>
         (fst (checkAllPastAttendance tz now send db) ! i = db ! i \<or>
          percentageCurrent (fst (checkAllPastAttendance tz now send db) ! i)) \<and>
         fst (checkPreviousDayAttendance tz now send db) = fst (checkAllPastAttendance tz now send db) \<and>
         (\<forall>k. findIndex (eligibleToday tz (setHours tz now 0 0 0 0)) (attendanceHistory (db ! i)) = Some k \<longrightarrow>
            attendancePercentage (fst (autoMarkLeaveAttendance tz now send db) ! i) =
              doublePercentage (spec_attendanceCount (attendanceHistory (db ! i)) - 1)
                (length (attendanceHistory (db ! i)))) \<and>
         (filter (incompleteBefore (setHours tz now 0 0 0 0)) (attendanceHistory (db ! i)) \<noteq> [] \<longrightarrow>
            attendancePercentage (fst (checkAllPastAttendance tz now send db) ! i) =
              doublePercentage
                (spec_attendanceCount (attendanceHistory (db ! i))
                   - length (filter (incompleteBefore (setHours tz now 0 0 0 0)) (attendanceHistory (db ! i))))
                (length (attendanceHistory (db ! i)))) \<and>
         (\<forall>s. percentageCurrent s \<longrightarrow>
            \<bar>attendancePercentage s - spec_attendancePercentage (attendanceHistory s)\<bar>
              \<le> spec_attendancePercentage (attendanceHistory s) / 2 ^ 51)"
proof (intro conjI allI impI)
  show "fst (autoMarkLeaveAttendance tz now send db) ! i = db ! i \<or>
        percentageCurrent (fst (autoMarkLeaveAttendance tz now send db) ! i)"
    using assms closeToday_percentage [of tz now "db ! i"]
    by (simp add: autoMarkLeaveAttendance_ledger)
  show "fst (checkAllPastAttendance tz now send db) ! i = db ! i \<or>
        percentageCurrent (fst (checkAllPastAttendance tz now send db) ! i)"
    using assms closePastRecords_percentage [of tz _ "db ! i"]
    by (simp add: checkAllPastAttendance_ledger)
  show "fst (checkPreviousDayAttendance tz now send db) = fst (checkAllPastAttendance tz now send db)"
    by (rule checkPreviousDayAttendance_is_backlog)
next
  fix k
  assume "findIndex (eligibleToday tz (setHours tz now 0 0 0 0)) (attendanceHistory (db ! i)) = Some k"
  then show "attendancePercentage (fst (autoMarkLeaveAttendance tz now send db) ! i) =
              doublePercentage (spec_attendanceCount (attendanceHistory (db ! i)) - 1)
                (length (attendanceHistory (db ! i)))"
    using assms by (simp add: autoMarkLeaveAttendance_ledger closeToday_count)
next
  assume "filter (incompleteBefore (setHours tz now 0 0 0 0)) (attendanceHistory (db ! i)) \<noteq> []"
  then show "attendancePercentage (fst (checkAllPastAttendance tz now send db) ! i) =
              doublePercentage
                (spec_attendanceCount (attendanceHistory (db ! i))
                   - length (filter (incompleteBefore (setHours tz now 0 0 0 0)) (attendanceHistory (db ! i))))
                (length (attendanceHistory (db ! i)))"
    using assms by (simp add: checkAllPastAttendance_ledger closePastRecords_count)
next
  fix s
  assume "percentageCurrent s"
  then show "\<bar>attendancePercentage s - spec_attendancePercentage (attendanceHistory s)\<bar>
              \<le> spec_attendancePercentage (attendanceHistory s) / 2 ^ 51"
    by (rule percentageCurrent_error)
qed

lemma ex_one_of_three: "doublePercentage 1 3 = 2345624805922133 / 70368744177664"
  by code_simp

lemma ex_two_of_three: "doublePercentage 2 3 = 2345624805922133 / 35184372088832"
  by code_simp

lemma ex_eleven_of_twenty: "doublePercentage 11 20 = 55 + 1 / 140737488355328"
  by code_simp

lemma ex_cutoff_today: "setHours 19800000 1171800000 0 0 0 0 = 1103400000"
  by (simp add: setHours_def msPerDay_def)

theorem sweeps_recompute_percentage_witness:
  "0 < length [backlogStudent] \<and>
   filter (incompleteBefore (setHours colombo day13Morning 0 0 0 0)) (attendanceHistory ([backlogStudent] ! 0)) \<noteq> [] \<and>
   attendancePercentage ([backlogStudent] ! 0) = 2345624805922133 / 35184372088832 \<and>
   attendancePercentage (fst (checkAllPastAttendance colombo day13Morning alwaysThrows [backlogStudent]) ! 0)
     = 2345624805922133 / 70368744177664 \<and>
   percentageCurrent (fst (checkAllPastAttendance colombo day13Morning alwaysThrows [backlogStudent]) ! 0) \<and>
   \<bar>attendancePercentage (fst (checkAllPastAttendance colombo day13Morning alwaysThrows [backlogStudent]) ! 0)
      - spec_attendancePercentage
          (attendanceHistory (fst (checkAllPastAttendance colombo day13Morning alwaysThrows [backlogStudent]) ! 0))\<bar>
     \<le> spec_attendancePercentage
          (attendanceHistory (fst (checkAllPastAttendance colombo day13Morning alwaysThrows [backlogStudent]) ! 0)) / 2 ^ 51 \<and>
   fst (checkPreviousDayAttendance colombo day13Morning alwaysThrows [backlogStudent])
     = fst (checkAllPastAttendance colombo day13Morning alwaysThrows [backlogStudent]) \<and>
   0 < length [cutoffStudent] \<and>
   findIndex (eligibleToday colombo (setHours colombo 1171800000 0 0 0 0)) (attendanceHistory ([cutoffStudent] ! 0)) = Some 2 \<and>
   attendancePercentage (fst (autoMarkLeaveAttendance colombo 1171800000 alwaysThrows [cutoffStudent]) ! 0)
     = 2345624805922133 / 70368744177664"
proof -
  have lb: "0 < length [backlogStudent]" and lc: "0 < length [cutoffStudent]" by simp_all
  note B = sweeps_recompute_percentage [OF lb, of colombo day13Morning alwaysThrows]
  note C = sweeps_recompute_percentage [OF lc, of colombo 1171800000 alwaysThrows]
  have open10: "filter (incompleteBefore (setHours colombo day13Morning 0 0 0 0)) (attendanceHistory backlogStudent) = [openDay10]"
    by (simp add: ex_today_num incompleteBefore_def backlogStudent_def studentWith_def
        openDay10_def presentDay11_def closedDay12_def colombo_def day13Morning_def)
  then have ne: "filter (incompleteBefore (setHours colombo day13Morning 0 0 0 0)) (attendanceHistory ([backlogStudent] ! 0)) \<noteq> []"
    by simp
  have before: "attendancePercentage ([backlogStudent] ! 0) = 2345624805922133 / 35184372088832"
    by (simp add: backlogStudent_def)
  have cb: "spec_attendanceCount (attendanceHistory backlogStudent) = 2"
    "length (attendanceHistory backlogStudent) = 3"
    by (simp_all add: spec_attendanceCount_def backlogStudent_def studentWith_def
        openDay10_def presentDay11_def closedDay12_def)
  from B [THEN conjunct2, THEN conjunct2, THEN conjunct2, THEN conjunct2, THEN conjunct1, THEN mp, OF ne]
  have after: "attendancePercentage (fst (checkAllPastAttendance colombo day13Morning alwaysThrows [backlogStudent]) ! 0)
     = 2345624805922133 / 70368744177664"
    using ex_one_of_three by (simp add: open10 cb)
  from before after
  have "fst (checkAllPastAttendance colombo day13Morning alwaysThrows [backlogStudent]) ! 0 \<noteq> [backlogStudent] ! 0"
    by auto
  with B [THEN conjunct2, THEN conjunct1]
  have cur: "percentageCurrent (fst (checkAllPastAttendance colombo day13Morning alwaysThrows [backlogStudent]) ! 0)"
    by simp
  from B [THEN conjunct2, THEN conjunct2, THEN conjunct2, THEN conjunct2, THEN conjunct2, THEN spec, THEN mp, OF cur]
  have bound: "\<bar>attendancePercentage (fst (checkAllPastAttendance colombo day13Morning alwaysThrows [backlogStudent]) ! 0)
      - spec_attendancePercentage
          (attendanceHistory (fst (checkAllPastAttendance colombo day13Morning alwaysThrows [backlogStudent]) ! 0))\<bar>
     \<le> spec_attendancePercentage
          (attendanceHistory (fst (checkAllPastAttendance colombo day13Morning alwaysThrows [backlogStudent]) ! 0)) / 2 ^ 51" .
  note same = B [THEN conjunct2, THEN conjunct2, THEN conjunct1]
  have idx: "findIndex (eligibleToday colombo (setHours colombo 1171800000 0 0 0 0)) (attendanceHistory ([cutoffStudent] ! 0)) = Some 2"
    by (simp add: ex_cutoff_today eligibleToday_def toDateString_def cutoffStudent_def studentWith_def
        presentDay11_def closedDay12_def enteredDay13_def colombo_def msPerDay_def)
  have cc: "spec_attendanceCount (attendanceHistory cutoffStudent) = 2"
    "length (attendanceHistory cutoffStudent) = 3"
    by (simp_all add: spec_attendanceCount_def cutoffStudent_def studentWith_def
        presentDay11_def closedDay12_def enteredDay13_def)
  from C [THEN conjunct2, THEN conjunct2, THEN conjunct2, THEN conjunct1, THEN spec, THEN mp, OF idx]
  have cut: "attendancePercentage (fst (autoMarkLeaveAttendance colombo 1171800000 alwaysThrows [cutoffStudent]) ! 0)
     = 2345624805922133 / 70368744177664"
    using ex_one_of_three by (simp add: cc)
  from lb ne before after cur bound same lc idx cut show ?thesis by blast
qed

lemma ex_twentyDays:
  "length twentyDays = 20"
  "spec_attendanceCount twentyDays = 12"
  "filter (incompleteBefore (setHours colombo day25Morning 0 0 0 0)) twentyDays = [openOn 20]"
  by code_simp+

text \<open>
  Eleven records of twenty count after the backlog sweep: the exact percentage is \<open>55\<close>,
  the stored one is the next double above it.
\<close>

theorem percentage_of_eleven_in_twenty:
  "spec_attendancePercentage
     (attendanceHistory (fst (checkAllPastAttendance colombo day25Morning alwaysSent [studentWith twentyDays None]) ! 0))
     = 55 \<and>
   attendancePercentage (fst (checkAllPastAttendance colombo day25Morning alwaysSent [studentWith twentyDays None]) ! 0)
     = 55 + 1 / 140737488355328"
proof -
  have h: "attendanceHistory (studentWith twentyDays None) = twentyDays"
    by (simp add: studentWith_def)
  have ne: "filter (incompleteBefore (setHours colombo day25Morning 0 0 0 0)) (attendanceHistory (studentWith twentyDays None)) \<noteq> []"
    by (simp add: h ex_twentyDays)
  have pct: "attendancePercentage (closePastRecords colombo (setHours colombo day25Morning 0 0 0 0) (studentWith twentyDays None))
             = 55 + 1 / 140737488355328"
    using closePastRecords_count [OF ne, of colombo] by (simp add: h ex_twentyDays ex_eleven_of_twenty)
  have "spec_attendanceCount (attendanceHistory (closePastRecords colombo (setHours colombo day25Morning 0 0 0 0) (studentWith twentyDays None)))
          + length (filter (incompleteBefore (setHours colombo day25Morning 0 0 0 0)) twentyDays) = spec_attendanceCount twentyDays"
    using count_after_closePast [of "setHours colombo day25Morning 0 0 0 0" colombo twentyDays]
    by (simp add: closePastRecords_history h)
  then have cnt: "spec_attendanceCount (attendanceHistory (closePastRecords colombo (setHours colombo day25Morning 0 0 0 0) (studentWith twentyDays None))) = 11"
    by (simp add: ex_twentyDays)
  have len: "length (attendanceHistory (closePastRecords colombo (setHours colombo day25Morning 0 0 0 0) (studentWith twentyDays None))) = 20"
    by (simp add: closePastRecords_history h ex_twentyDays)
  then have "attendanceHistory (closePastRecords colombo (setHours colombo day25Morning 0 0 0 0) (studentWith twentyDays None)) \<noteq> []"
    by auto
  with cnt len have "spec_attendancePercentage
     (attendanceHistory (closePastRecords colombo (setHours colombo day25Morning 0 0 0 0) (studentWith twentyDays None))) = 55"
    by (simp add: spec_attendancePercentage_def)
  with pct show ?thesis
    by (simp add: checkAllPastAttendance_ledger)
qed

section \<open>lastAttendance after the backlog sweep\<close>

text \<open>
  Claim C8 at a concrete ledger. A student left on day 12 at 15:00, which is the value of
  \<open>lastAttendance\<close>, and still has an open record from day 10. The backlog sweep on day
  13 closes the old record and sets \<open>lastAttendance\<close> to 18:30 of day 10, while the
  latest leave time of the history is still that of day 12.
\<close>

theorem backlog_sweep_lastAttendance_goes_back:
  "lastAttendance (studentWith [openDay10, closedDay12] (Some 1071000000)) = Some 1071000000 \<and>
   lastAttendance (fst (checkAllPastAttendance colombo day13Morning alwaysSent
                          [studentWith [openDay10, closedDay12] (Some 1071000000)]) ! 0) = Some 910800000 \<and>
   latest (map leaveTime (attendanceHistory (fst (checkAllPastAttendance colombo day13Morning alwaysSent
                          [studentWith [openDay10, closedDay12] (Some 1071000000)]) ! 0))) = Some 1071000000"
  by (simp add: checkAllPastAttendance_ledger closePastRecords_def ex_today_num ex_cutoff_day10 incompleteBefore_def
      studentWith_def openDay10_def closedDay12_def closeAtOwnDate_def colombo_def day13Morning_def Let_def)

section \<open>Calendar conventions\<close>

text \<open>
  Claim C5 at a concrete clock. In a process at UTC+05:30, a record dated at the local
  midnight of day 13 (or stamped at 02:00 that day) and a scan at 10:00 local time of
  day 13 are on one local calendar day, the one the cutoff sweep compares, and on two
  different ISO dates, the ones the scan controller compares: the sweep finds the record
  as today's, the controller finds none and decides on an entry.
\<close>

theorem scan_day_differs_from_sweep_day:
  "toDateString colombo (date enteredDay13) = toDateString colombo day13Morning \<and>
   toISODate (date enteredDay13) \<noteq> toISODate day13Morning \<and>
   findIndex (eligibleToday colombo (setHours colombo day13Morning 0 0 0 0)) [enteredDay13] = Some 0 \<and>
   todayAttendanceIndex day13Morning [enteredDay13] = None \<and>
   statusToSave day13Morning [enteredDay13] = ''entered'' \<and>
   toDateString colombo (date earlyDay13) = toDateString colombo day13Morning \<and>
   toISODate (date earlyDay13) \<noteq> toISODate day13Morning \<and>
   findIndex (eligibleToday colombo (setHours colombo day13Morning 0 0 0 0)) [earlyDay13] = Some 0 \<and>
   todayAttendanceIndex day13Morning [earlyDay13] = None \<and>
   statusToSave day13Morning [earlyDay13] = ''entered''"
  by (simp add: toDateString_def toISODate_def eligibleToday_def todayAttendanceIndex_def statusToSave_def
      ex_today_num enteredDay13_def earlyDay13_def day13Morning_def colombo_def msPerDay_def)

section \<open>Manual override\<close>

text \<open>
  Claim C9, as the code has it. For a request that names an existing student, the manual
  override accepts exactly the statuses \<open>entered\<close>, \<open>left\<close>, \<open>present\<close> and \<open>absent\<close>:
  it answers 200 and hands the status to the model method. Any other status is answered
  with 400 and the invalid-status message, and the ledger is returned as it was. Whatever
  student the request names, a status outside the four leaves the ledger unchanged.
\<close>

theorem manual_override_status_gate:
  "(mark_studentId req = Some i \<and> i < length db \<longrightarrow>
      (mark_status req \<in> {''entered'', ''left'', ''present'', ''absent''} \<longrightarrow>
         markStudentAttendance tz now req db =
           (Status200 (mark_status req), db[i := Student_markAttendance tz now (mark_status req) (db ! i)])) \<and>
      (mark_status req \<notin> {''entered'', ''left'', ''present'', ''absent''} \<longrightarrow>
         markStudentAttendance tz now req db =
           (Status400 ''Invalid status. Must be one of: entered, left, present, absent'', db))) \<and>
   (mark_status req \<notin> {''entered'', ''left'', ''present'', ''absent''} \<longrightarrow>
      snd (markStudentAttendance tz now req db) = db)"
  by (simp add: markStudentAttendance_def Student_findById_def validStatus_def split: option.splits)

theorem manual_override_status_gate_witness:
  "mark_studentId \<lparr>mark_studentId = Some 0, mark_status = ''present''\<rparr> = Some 0 \<and>
   0 < length [studentWith [] None] \<and>
   fst (markStudentAttendance colombo day13Morning \<lparr>mark_studentId = Some 0, mark_status = ''present''\<rparr> [studentWith [] None])
     = Status200 ''present'' \<and>
   mark_studentId \<lparr>mark_studentId = Some 0, mark_status = ''holiday''\<rparr> = Some 0 \<and>
   markStudentAttendance colombo day13Morning \<lparr>mark_studentId = Some 0, mark_status = ''holiday''\<rparr> [studentWith [] None]
     = (Status400 ''Invalid status. Must be one of: entered, left, present, absent'', [studentWith [] None]) \<and>
   snd (markStudentAttendance colombo day13Morning \<lparr>mark_studentId = None, mark_status = ''holiday''\<rparr> [studentWith [] None])
     = [studentWith [] None]"
  using manual_override_status_gate [of "\<lparr>mark_studentId = Some 0, mark_status = ''present''\<rparr>" 0 "[studentWith [] None]" colombo day13Morning]
    manual_override_status_gate [of "\<lparr>mark_studentId = Some 0, mark_status = ''holiday''\<rparr>" 0 "[studentWith [] None]" colombo day13Morning]
    manual_override_status_gate [of "\<lparr>mark_studentId = None, mark_status = ''holiday''\<rparr>" 0 "[studentWith [] None]" colombo day13Morning]
  by simp

text \<open>The status \<open>late\<close> belongs to the enumeration of the data model and is rejected.\<close>

theorem manual_override_rejects_late:
  "''late'' \<in> set spec_statusEnum \<and>
   markStudentAttendance colombo day13Morning \<lparr>mark_studentId = Some 0, mark_status = ''late''\<rparr> [studentWith [] None]
     = (Status400 ''Invalid status. Must be one of: entered, left, present, absent'', [studentWith [] None])"
  by (simp add: spec_statusEnum_def markStudentAttendance_def Student_findById_def validStatus_def)

section \<open>Students without a record on the queried day\<close>

lemma in_Student_find: "(i, s) \<in> set (Student_find q db) \<longleftrightarrow> i < length db \<and> s = db ! i \<and> q s"
  by (auto simp: Student_find_def in_set_enumerate_eq)

lemma studentAttendanceMap_None:
  assumes "\<forall>(j, s) \<in> set ps. j = i \<longrightarrow> todayAttendance today endOfDay s = []"
  shows "studentAttendanceMap today endOfDay ps i = None"
proof -
  let ?step = "\<lambda>m (i, s).
              let records = todayAttendance today endOfDay s
              in if length records > 0 then
                   let sorted = sort_key (\<lambda>record. - date record) records
                   in m(i \<mapsto> foldl trackTimes
                                 \<lparr>att_status = status (hd sorted), att_timestamp = date (hd sorted),
                                  att_entryTime = None, att_leaveTime = None\<rparr>
                                 sorted)
                 else m"
  have "m i = None \<Longrightarrow> \<forall>(j, s) \<in> set ps. j = i \<longrightarrow> todayAttendance today endOfDay s = [] \<Longrightarrow>
        foldl ?step m ps i = None" for m
  proof (induction ps arbitrary: m)
    case Nil
    then show ?case by simp
  next
    case (Cons p ps)
    obtain j s where p: "p = (j, s)" by (cases p)
    have "?step m (j, s) i = None"
      using Cons.prems by (auto simp: p Let_def)
    moreover have "\<forall>(j, s) \<in> set ps. j = i \<longrightarrow> todayAttendance today endOfDay s = []"
      using Cons.prems(2) by simp
    ultimately have "foldl ?step (?step m (j, s)) ps i = None"
      by (rule Cons.IH)
    then show ?case by (simp add: p)
  qed
  from this [of Map.empty] assms show ?thesis
    by (simp add: studentAttendanceMap_def)
qed

lemma dr_id_processStudent [simp]: "dr_id (processStudent tz startOfDay p) = fst p"
  by (simp add: processStudent_def Let_def)

text \<open>
  Claim C10, as the code has it. Today's scanned-students view lists every active student
  with no record dated within today's UTC day as a row with status \<open>absent\<close> and no
  entry or leave time. The attendance-by-date view queries only the students that have a
  record within the queried local day: a student without one has no row at all.
\<close>

theorem day_views_of_student_without_record:
  assumes "i < length db"
  shows "(student_status (db ! i) = ''active'' \<and>
          todayAttendance (setUTCHours now 0 0 0 0) (setUTCHours (setUTCHours now 0 0 0 0) 23 59 59 999) (db ! i) = [] \<longrightarrow>
            \<lparr>row_id = i, row_student = db ! i, row_status = ''absent'', row_entryTime = None, row_leaveTime = None\<rparr>
              \<in> set (scanned_students (getScannedStudentsToday now db))) \<and>
         ((\<forall>record \<in> set (attendanceHistory (db ! i)).
              \<not> (setHours tz d 0 0 0 0 \<le> date record \<and> date record < setHours tz d 23 59 59 999)) \<longrightarrow>
            i \<notin> dr_id ` set (fst (getAttendanceByDate tz d db)))"
proof (intro conjI impI)
  let ?today = "setUTCHours now 0 0 0 0"
  let ?end = "setUTCHours ?today 23 59 59 999"
  let ?all = "sort_key (\<lambda>(i, s). indexNumber s) (Student_find (\<lambda>s. student_status s = ''active'') db)"
  assume a: "student_status (db ! i) = ''active'' \<and> todayAttendance ?today ?end (db ! i) = []"
  have mem: "(i, db ! i) \<in> set ?all"
    using assms a by (simp add: in_Student_find)
  have "\<forall>(j, s) \<in> set ?all. j = i \<longrightarrow> todayAttendance ?today ?end s = []"
    using a by (auto simp: in_Student_find)
  then have none: "studentAttendanceMap ?today ?end ?all i = None"
    by (rule studentAttendanceMap_None)
  have "(\<lambda>(i, s). case studentAttendanceMap ?today ?end ?all i of
           None \<Rightarrow> \<lparr>row_id = i, row_student = s, row_status = ''absent'', row_entryTime = None, row_leaveTime = None\<rparr>
         | Some attendance \<Rightarrow>
             \<lparr>row_id = i, row_student = s, row_status = att_status attendance,
              row_entryTime = Some (case att_entryTime attendance of Some t \<Rightarrow> t | None \<Rightarrow> att_timestamp attendance),
              row_leaveTime = att_leaveTime attendance\<rparr>) (i, db ! i)
        = \<lparr>row_id = i, row_student = db ! i, row_status = ''absent'', row_entryTime = None, row_leaveTime = None\<rparr>"
    by (simp add: none)
  with mem show "\<lparr>row_id = i, row_student = db ! i, row_status = ''absent'', row_entryTime = None, row_leaveTime = None\<rparr>
                 \<in> set (scanned_students (getScannedStudentsToday now db))"
    unfolding getScannedStudentsToday_def Let_def by (simp add: image_iff) force
next
  let ?q = "\<lambda>s. \<exists>record \<in> set (attendanceHistory s). setHours tz d 0 0 0 0 \<le> date record \<and> date record < setHours tz d 23 59 59 999"
  assume "\<forall>record \<in> set (attendanceHistory (db ! i)).
            \<not> (setHours tz d 0 0 0 0 \<le> date record \<and> date record < setHours tz d 23 59 59 999)"
  then have "\<not> ?q (db ! i)" by simp
  then have "i \<notin> fst ` set (Student_find ?q db)"
    by (auto simp: in_Student_find)
  then show "i \<notin> dr_id ` set (fst (getAttendanceByDate tz d db))"
    by (auto simp: getAttendanceByDate_def Let_def image_iff)
qed

theorem day_views_of_student_without_record_witness:
  "0 < length [studentWith [] None] \<and>
   student_status ([studentWith [] None] ! 0) = ''active'' \<and>
   todayAttendance (setUTCHours day13Morning 0 0 0 0) (setUTCHours (setUTCHours day13Morning 0 0 0 0) 23 59 59 999)
     ([studentWith [] None] ! 0) = [] \<and>
   \<lparr>row_id = 0, row_student = [studentWith [] None] ! 0, row_status = ''absent'', row_entryTime = None, row_leaveTime = None\<rparr>
     \<in> set (scanned_students (getScannedStudentsToday day13Morning [studentWith [] None])) \<and>
   0 \<notin> dr_id ` set (fst (getAttendanceByDate colombo 1123200000 [studentWith [] None]))"
  using day_views_of_student_without_record [of 0 "[studentWith [] None]" day13Morning colombo 1123200000]
  by (simp add: studentWith_def todayAttendance_def)

text \<open>An active student with an empty history is missing from the attendance-by-date view.\<close>

theorem attendance_by_date_omits_absent_student:
  "student_status (studentWith [] None) = ''active'' \<and>
   attendanceHistory (studentWith [] None) = [] \<and>
   getAttendanceByDate colombo 1123200000 [studentWith [] None]
     = ([], \<lparr>totalCount = 0, presentCount = 0, absentCount = 0, lateCount = 0\<rparr>)"
  by (simp add: getAttendanceByDate_def Student_find_def studentWith_def)

section \<open>One record per calendar day\<close>

lemma attendanceHistory_recompute [simp]: "attendanceHistory (recompute k s) = attendanceHistory s"
  by (simp add: recompute_def Let_def)

lemma toDateString_local_midnight [simp]:
  "toDateString tz (setHours tz now 0 0 0 0) = toDateString tz now"
  by (rule setHours_local_day) (simp_all add: msPerDay_def)

lemma onePerDay_closePastRecords: "onePerDay tz s \<Longrightarrow> onePerDay tz (closePastRecords tz today s)"
proof -
  have "map (\<lambda>r. toDateString tz (date r)) (attendanceHistory (closePastRecords tz today s))
        = map (\<lambda>r. toDateString tz (date r)) (attendanceHistory s)"
    by (simp add: closePastRecords_history closeAtOwnDate_def comp_def if_distrib cong: if_cong)
  then show "onePerDay tz s \<Longrightarrow> onePerDay tz (closePastRecords tz today s)"
    by (simp add: onePerDay_def)
qed

lemma map_date_update:
  "k < length h \<Longrightarrow> date r = date (h ! k) \<Longrightarrow> map (\<lambda>r. f (date r)) (h[k := r]) = map (\<lambda>r. f (date r)) h"
  by (simp add: map_update list_update_same_conv)

lemma onePerDay_markLeftAt:
  "k < length (attendanceHistory s) \<Longrightarrow> onePerDay tz s \<Longrightarrow> onePerDay tz (markLeftAt k lt s)"
  by (simp add: onePerDay_def markLeftAt_def Let_def map_date_update)

lemma onePerDay_closeToday: "onePerDay tz s \<Longrightarrow> onePerDay tz (closeToday tz now s)"
  by (auto simp: closeToday_def onePerDay_markLeftAt split: option.splits dest: findIndex_Some)

lemma onePerDay_closeYesterday: "onePerDay tz s \<Longrightarrow> onePerDay tz (closeYesterday tz now s)"
  by (auto simp: closeYesterday_def Let_def onePerDay_markLeftAt split: option.splits dest: findIndex_Some)

lemma onePerDay_Student_markAttendance:
  assumes "onePerDay tz s"
  shows "onePerDay tz (Student_markAttendance tz now st s)"
proof (cases "findIndex (\<lambda>r. toDateString tz (date r) = toDateString tz (setHours tz now 0 0 0 0)) (attendanceHistory s)")
  case None
  then have "\<forall>r \<in> set (attendanceHistory s). toDateString tz (date r) \<noteq> toDateString tz now"
    by (simp add: findIndex_None)
  then have "toDateString tz now \<notin> set (map (\<lambda>r. toDateString tz (date r)) (attendanceHistory s))"
    by auto
  with assms None show ?thesis
    by (simp add: Student_markAttendance_def onePerDay_def Let_def)
next
  case (Some k)
  from findIndex_Some [OF Some] have k: "k < length (attendanceHistory s)" by simp
  with assms Some show ?thesis
    by (simp add: Student_markAttendance_def onePerDay_def Let_def map_date_update)
qed

lemma set_update_invariant:
  "\<forall>s \<in> set db. P s \<Longrightarrow> P x \<Longrightarrow> \<forall>s \<in> set (db[i := x]). P s"
  by (metis insert_iff set_update_subset_insert subsetD)

lemma markAttendance_found:
  assumes "markAttendance tz now req db = (r, db')"
  shows "db' = db \<or> (\<exists>i st. i < length db \<and> db' = db[i := Student_markAttendance tz now st (db ! i)])"
proof -
  let ?byId = "case scan_id req of None \<Rightarrow> None | Some i \<Rightarrow> map_option (\<lambda>s. (i, s)) (Student_findById i db)"
  let ?found = "case ?byId of Some p \<Rightarrow> Some p
     | None \<Rightarrow> Student_findOne (\<lambda>s. indexNumber s = scan_indexNumber req \<and> name s = scan_name req) db"
  have found: "?found = Some (i, s) \<Longrightarrow> i < length db \<and> s = db ! i" for i s
  proof -
    assume f: "?found = Some (i, s)"
    show ?thesis
    proof (cases ?byId)
      case None
      with f have "Student_findOne (\<lambda>s. indexNumber s = scan_indexNumber req \<and> name s = scan_name req) db = Some (i, s)"
        by simp
      then have "(i, s) \<in> set (Student_find (\<lambda>s. indexNumber s = scan_indexNumber req \<and> name s = scan_name req) db)"
        by (auto simp: Student_findOne_def split: list.splits)
      then show ?thesis by (simp add: in_Student_find)
    next
      case (Some p)
      with f have "?byId = Some (i, s)" by simp
      then show ?thesis
        by (auto simp: Student_findById_def split: option.splits if_splits)
    qed
  qed
  show ?thesis
  proof (cases ?found)
    case None
    with assms show ?thesis by (auto simp: markAttendance_def Let_def split: if_splits)
  next
    case (Some p)
    obtain i s where p: "p = (i, s)" by (cases p)
    from found Some p have "i < length db" "s = db ! i" by auto
    with assms Some p show ?thesis
      by (auto simp: markAttendance_def Let_def split: if_splits)
  qed
qed

lemma autoCheckoutStudent_invariant:
  assumes "\<forall>s \<in> set (fst acc). onePerDay tz s" and "onePerDay tz (snd p)"
  shows "\<forall>s \<in> set (fst (autoCheckoutStudent tz now today acc p)). onePerDay tz s"
proof (cases "List.find (\<lambda>record. setHours tz (date record) 0 0 0 0 = today \<and>
                                status record = ''entered'' \<and> leaveTime record = None)
             (attendanceHistory (snd p))")
  case None
  with assms(1) show ?thesis by (simp add: autoCheckoutStudent_def)
next
  case (Some r)
  from assms(2) have "onePerDay tz (Student_markAttendance tz now ''left'' (snd p))"
    by (rule onePerDay_Student_markAttendance)
  with assms(1) have "\<forall>s \<in> set ((fst acc)[fst p := Student_markAttendance tz now ''left'' (snd p)]). onePerDay tz s"
    by (rule set_update_invariant)
  with Some show ?thesis by (simp add: autoCheckoutStudent_def)
qed

lemma runAutoCheckout_invariant:
  assumes "\<forall>s \<in> set db. onePerDay tz s"
  shows "\<forall>s \<in> set (fst (runAutoCheckout tz now db)). onePerDay tz s"
proof -
  have loop: "\<forall>s \<in> set (fst acc). onePerDay tz s \<Longrightarrow> \<forall>p \<in> set ps. onePerDay tz (snd p) \<Longrightarrow>
              \<forall>s \<in> set (fst (foldl (autoCheckoutStudent tz now today) acc ps)). onePerDay tz s" for acc ps today
  proof (induction ps arbitrary: acc)
    case Nil
    then show ?case by simp
  next
    case (Cons p ps)
    from Cons.prems have "\<forall>s \<in> set (fst (autoCheckoutStudent tz now today acc p)). onePerDay tz s"
      by (intro autoCheckoutStudent_invariant) simp_all
    moreover from Cons.prems have "\<forall>p \<in> set ps. onePerDay tz (snd p)" by simp
    ultimately have "\<forall>s \<in> set (fst (foldl (autoCheckoutStudent tz now today) (autoCheckoutStudent tz now today acc p) ps)). onePerDay tz s"
      by (rule Cons.IH)
    then show ?case by simp
  qed
  have found: "\<forall>p \<in> set (Student_find q db). onePerDay tz (snd p)" for q
  proof
    fix p assume "p \<in> set (Student_find q db)"
    then have "fst p < length db \<and> snd p = db ! fst p"
      using in_Student_find [of "fst p" "snd p" q db] by simp
    with assms show "onePerDay tz (snd p)" by simp
  qed
  have "\<forall>s \<in> set (fst (foldl (autoCheckoutStudent tz now (setHours tz now 0 0 0 0)) (db, 0)
          (Student_find (autoCheckoutQuery (setHours tz now 0 0 0 0)) db))). onePerDay tz s"
    by (rule loop) (simp_all add: assms found)
  then show ?thesis
    by (simp add: runAutoCheckout_def Let_def)
qed

lemma applyOperation_invariant:
  assumes "\<forall>s \<in> set db. onePerDay tz s"
  shows "\<forall>s \<in> set (applyOperation tz send db op). onePerDay tz s"
proof (cases op)
  case (Scan now req)
  obtain r db' where m: "markAttendance tz now req db = (r, db')" by force
  from markAttendance_found [OF m] have "\<forall>s \<in> set db'. onePerDay tz s"
  proof
    assume "db' = db"
    with assms show ?thesis by simp
  next
    assume "\<exists>i st. i < length db \<and> db' = db[i := Student_markAttendance tz now st (db ! i)]"
    then obtain i st where i: "i < length db" and db': "db' = db[i := Student_markAttendance tz now st (db ! i)]"
      by blast
    from i assms have "onePerDay tz (db ! i)" by simp
    then have "onePerDay tz (Student_markAttendance tz now st (db ! i))"
      by (rule onePerDay_Student_markAttendance)
    with assms show ?thesis unfolding db' by (rule set_update_invariant)
  qed
  with m Scan show ?thesis by simp
next
  case (ManualMark now req)
  have "snd (markStudentAttendance tz now req db) = db \<or>
        (\<exists>i. i < length db \<and> snd (markStudentAttendance tz now req db) = db[i := Student_markAttendance tz now (mark_status req) (db ! i)])"
    by (auto simp: markStudentAttendance_def Student_findById_def split: option.splits)
  then have "\<forall>s \<in> set (snd (markStudentAttendance tz now req db)). onePerDay tz s"
  proof
    assume "snd (markStudentAttendance tz now req db) = db"
    with assms show ?thesis by simp
  next
    assume "\<exists>i. i < length db \<and> snd (markStudentAttendance tz now req db) = db[i := Student_markAttendance tz now (mark_status req) (db ! i)]"
    then obtain i where i: "i < length db"
      and db': "snd (markStudentAttendance tz now req db) = db[i := Student_markAttendance tz now (mark_status req) (db ! i)]"
      by blast
    from i assms have "onePerDay tz (db ! i)" by simp
    then have "onePerDay tz (Student_markAttendance tz now (mark_status req) (db ! i))"
      by (rule onePerDay_Student_markAttendance)
    with assms show ?thesis unfolding db' by (rule set_update_invariant)
  qed
  with ManualMark show ?thesis by simp
next
  case (CutoffSweep now)
  with assms show ?thesis
    by (simp add: autoMarkLeaveAttendance_ledger onePerDay_closeToday)
next
  case (BacklogSweep now)
  with assms show ?thesis
    by (simp add: checkAllPastAttendance_ledger onePerDay_closePastRecords)
next
  case (PreviousDaySweep now)
  with assms show ?thesis
    by (simp add: checkPreviousDayAttendance_ledger onePerDay_closePastRecords onePerDay_closeYesterday)
next
  case (AutoCheckout now)
  with runAutoCheckout_invariant [OF assms] show ?thesis by simp
qed

lemma runOperations_invariant:
  "\<forall>s \<in> set db. onePerDay tz s \<Longrightarrow> \<forall>s \<in> set (runOperations tz send ops db). onePerDay tz s"
  unfolding runOperations_def
proof (induction ops arbitrary: db)
  case Nil
  then show ?case by simp
next
  case (Cons op ops)
  from Cons.prems have "\<forall>s \<in> set (applyOperation tz send db op). onePerDay tz s"
    by (rule applyOperation_invariant)
  then show ?case using Cons.IH by simp
qed

lemma length_Student_markAttendance:
  "length (attendanceHistory (Student_markAttendance tz now st s)) =
     (if \<exists>r \<in> set (attendanceHistory s). toDateString tz (date r) = toDateString tz now
      then length (attendanceHistory s) else Suc (length (attendanceHistory s)))"
proof (cases "findIndex (\<lambda>r. toDateString tz (date r) = toDateString tz (setHours tz now 0 0 0 0)) (attendanceHistory s)")
  case None
  then have "\<not> (\<exists>r \<in> set (attendanceHistory s). toDateString tz (date r) = toDateString tz now)"
    by (simp add: findIndex_None)
  with None show ?thesis by (simp add: Student_markAttendance_def Let_def)
next
  case (Some k)
  from findIndex_Some [OF Some] have "k < length (attendanceHistory s)"
    "toDateString tz (date (attendanceHistory s ! k)) = toDateString tz now" by simp_all
  then have "\<exists>r \<in> set (attendanceHistory s). toDateString tz (date r) = toDateString tz now"
    by (metis nth_mem)
  with Some show ?thesis by (simp add: Student_markAttendance_def Let_def)
qed

text \<open>
  Claim C1. If every student of the ledger has at most one record per local calendar day,
  then so has every student after any sequence of scans, manual marks, sweeps and
  administrative auto checkouts. A scan
  or mark on a day that already has a record rewrites that record in place and the
  history keeps its length; only a day without a record gets a new one.
\<close>

theorem one_record_per_day:
  assumes "\<forall>s \<in> set db. onePerDay tz s"
  shows "(\<forall>s \<in> set (runOperations tz send ops db). onePerDay tz s) \<and>
         length (attendanceHistory (Student_markAttendance tz now st x)) =
           (if \<exists>r \<in> set (attendanceHistory x). toDateString tz (date r) = toDateString tz now
            then length (attendanceHistory x) else Suc (length (attendanceHistory x)))"
  using assms by (simp add: runOperations_invariant length_Student_markAttendance)

theorem one_record_per_day_witness:
  "onePerDay colombo (studentWith [] None) \<and>
   onePerDay colombo
     (runOperations colombo alwaysThrows
        [Scan 1135800000 (scanOf 0), Scan day13Morning (scanOf 0),
         ManualMark 1157400000 \<lparr>mark_studentId = Some 0, mark_status = ''absent''\<rparr>,
         CutoffSweep 1171800000, Scan 1222200000 (scanOf 0), AutoCheckout 1251000000,
         PreviousDaySweep 1308600000]
        [studentWith [] None] ! 0) \<and>
   map (\<lambda>s. map date (attendanceHistory s))
     (runOperations colombo alwaysThrows
        [Scan 1135800000 (scanOf 0), Scan day13Morning (scanOf 0),
         ManualMark 1157400000 \<lparr>mark_studentId = Some 0, mark_status = ''absent''\<rparr>,
         CutoffSweep 1171800000, Scan 1222200000 (scanOf 0), AutoCheckout 1251000000,
         PreviousDaySweep 1308600000]
        [studentWith [] None]) = [[1103400000, 1189800000]]"
proof -
  let ?ops = "[Scan 1135800000 (scanOf 0), Scan day13Morning (scanOf 0),
         ManualMark 1157400000 \<lparr>mark_studentId = Some 0, mark_status = ''absent''\<rparr>,
         CutoffSweep 1171800000, Scan 1222200000 (scanOf 0), AutoCheckout 1251000000,
         PreviousDaySweep 1308600000]"
  have s: "onePerDay colombo (studentWith [] None)"
    by (simp add: onePerDay_def studentWith_def)
  then have h: "\<forall>s \<in> set [studentWith [] None]. onePerDay colombo s"
    by simp
  have e: "map (\<lambda>s. map date (attendanceHistory s))
     (runOperations colombo alwaysThrows ?ops [studentWith [] None]) = [[1103400000, 1189800000]]"
    by (simp add: runOperations_def markAttendance_def markStudentAttendance_def scanOf_def
        Student_findById_def studentWith_def statusToSave_def todayAttendanceIndex_def
        Student_markAttendance_def validStatus_def
        autoMarkLeaveAttendance_ledger checkPreviousDayAttendance_ledger closeToday_def closeYesterday_def
        closePastRecords_history eligibleYesterday_def
        runAutoCheckout_def autoCheckoutStudent_def autoCheckoutQuery_def Student_find_def
        eligibleToday_def incompleteBefore_def markLeftAt_def closeAtOwnDate_def
        toDateString_def toISODate_def setHours_def msPerDay_def colombo_def day13Morning_def Let_def)
  then have "length (runOperations colombo alwaysThrows ?ops [studentWith [] None]) = 1"
    by (metis length_map length_Cons list.size(3) One_nat_def)
  then have "runOperations colombo alwaysThrows ?ops [studentWith [] None] ! 0
             \<in> set (runOperations colombo alwaysThrows ?ops [studentWith [] None])"
    by simp
  with one_record_per_day [OF h, of alwaysThrows ?ops]
  have "onePerDay colombo (runOperations colombo alwaysThrows ?ops [studentWith [] None] ! 0)"
    by blast
  with s e show ?thesis by simp
qed


section \<open>The scan state machine\<close>

lemma markAttendance_by_id:
  assumes "scan_id req = Some i" "scan_indexNumber req \<noteq> []" "scan_name req \<noteq> []" "scan_hashValid req"
    and "i < length db"
  shows "markAttendance tz now req db =
           (Status200 (statusToSave now (attendanceHistory (db ! i))),
            db[i := Student_markAttendance tz now (statusToSave now (attendanceHistory (db ! i))) (db ! i)])"
  using assms by (simp add: markAttendance_def Student_findById_def Let_def)

text \<open>
  Where the controller and the model method locate the same record, the state machine is
  the specification's. The controller decides by the record it finds for the scan's ISO
  date: with none it decides \<open>entered\<close>; on a record with an entry time and no leave time
  it decides \<open>left\<close>; on a record with a leave time, or with neither time, it decides
  \<open>entered\<close>. The method then appends a record with the scan time as entry time, or closes
  the record it found with the scan time as leave time, or re-opens it with a fresh entry
  time.
\<close>

lemma scan_state_machine:
  assumes "scan_id req = Some i" "scan_indexNumber req \<noteq> []" "scan_name req \<noteq> []" "scan_hashValid req"
    and "i < length db"
  shows "(todayAttendanceIndex now (attendanceHistory (db ! i)) = None \<longrightarrow>
            fst (markAttendance tz now req db) = Status200 ''entered'') \<and>
         (\<forall>k. todayAttendanceIndex now (attendanceHistory (db ! i)) = Some k \<longrightarrow>
            (entryTime (attendanceHistory (db ! i) ! k) \<noteq> None \<and> leaveTime (attendanceHistory (db ! i) ! k) = None \<longrightarrow>
               fst (markAttendance tz now req db) = Status200 ''left'') \<and>
            (leaveTime (attendanceHistory (db ! i) ! k) \<noteq> None \<or> entryTime (attendanceHistory (db ! i) ! k) = None \<longrightarrow>
               fst (markAttendance tz now req db) = Status200 ''entered'')) \<and>
         (recordOfScanDay tz now (attendanceHistory (db ! i)) None \<longrightarrow>
            attendanceHistory (snd (markAttendance tz now req db) ! i) =
              attendanceHistory (db ! i) @
                [\<lparr>date = setHours tz now 0 0 0 0, status = ''entered'', entryTime = Some now, leaveTime = None\<rparr>]) \<and>
         (\<forall>k. recordOfScanDay tz now (attendanceHistory (db ! i)) (Some k) \<longrightarrow>
            (entryTime (attendanceHistory (db ! i) ! k) \<noteq> None \<and> leaveTime (attendanceHistory (db ! i) ! k) = None \<longrightarrow>
               attendanceHistory (snd (markAttendance tz now req db) ! i) =
                 (attendanceHistory (db ! i))
                   [k := (attendanceHistory (db ! i) ! k)\<lparr>status := ''left'', leaveTime := Some now\<rparr>] \<and>
               (\<forall>e. entryTime (attendanceHistory (db ! i) ! k) = Some e \<and> e < now \<longrightarrow>
                  entryBeforeLeave (attendanceHistory (snd (markAttendance tz now req db) ! i) ! k))) \<and>
            (leaveTime (attendanceHistory (db ! i) ! k) \<noteq> None \<or> entryTime (attendanceHistory (db ! i) ! k) = None \<longrightarrow>
               attendanceHistory (snd (markAttendance tz now req db) ! i) =
                 (attendanceHistory (db ! i))
                   [k := (attendanceHistory (db ! i) ! k)\<lparr>status := ''entered'', entryTime := Some now, leaveTime := None\<rparr>]))"
proof -
  let ?h = "attendanceHistory (db ! i)"
  note m = markAttendance_by_id [OF assms, of tz now]
  have decide_none: "todayAttendanceIndex now ?h = None \<Longrightarrow> statusToSave now ?h = ''entered''"
    by (simp add: statusToSave_def)
  have decide_left: "todayAttendanceIndex now ?h = Some k \<Longrightarrow> entryTime (?h ! k) \<noteq> None \<Longrightarrow>
      leaveTime (?h ! k) = None \<Longrightarrow> statusToSave now ?h = ''left''" for k
    by (simp add: statusToSave_def Let_def)
  have decide_entered: "todayAttendanceIndex now ?h = Some k \<Longrightarrow>
      leaveTime (?h ! k) \<noteq> None \<or> entryTime (?h ! k) = None \<Longrightarrow> statusToSave now ?h = ''entered''" for k
    by (auto simp: statusToSave_def Let_def)
  have ctl: "recordOfScanDay tz now ?h k \<Longrightarrow> todayAttendanceIndex now ?h = k" for k
    by (simp add: recordOfScanDay_def)
  have new: "recordOfScanDay tz now ?h None \<Longrightarrow>
      attendanceHistory (Student_markAttendance tz now ''entered'' (db ! i)) =
        ?h @ [\<lparr>date = setHours tz now 0 0 0 0, status = ''entered'', entryTime = Some now, leaveTime = None\<rparr>]"
    by (simp add: recordOfScanDay_def Student_markAttendance_def Let_def)
  have exit: "recordOfScanDay tz now ?h (Some k) \<Longrightarrow>
      attendanceHistory (Student_markAttendance tz now ''left'' (db ! i)) =
        ?h[k := (?h ! k)\<lparr>status := ''left'', leaveTime := Some now\<rparr>]" for k
    by (simp add: recordOfScanDay_def Student_markAttendance_def Let_def)
  have entry: "recordOfScanDay tz now ?h (Some k) \<Longrightarrow>
      attendanceHistory (Student_markAttendance tz now ''entered'' (db ! i)) =
        ?h[k := (?h ! k)\<lparr>status := ''entered'', entryTime := Some now, leaveTime := None\<rparr>]" for k
    by (simp add: recordOfScanDay_def Student_markAttendance_def Let_def)
  have bound: "recordOfScanDay tz now ?h (Some k) \<Longrightarrow> k < length ?h" for k
    by (auto simp: recordOfScanDay_def todayAttendanceIndex_def dest: findIndex_Some)
  show ?thesis
  proof (intro conjI allI impI)
    assume "todayAttendanceIndex now ?h = None"
    then show "fst (markAttendance tz now req db) = Status200 ''entered''"
      by (simp add: m decide_none)
  next
    fix k
    assume "todayAttendanceIndex now ?h = Some k"
      and "entryTime (?h ! k) \<noteq> None \<and> leaveTime (?h ! k) = None"
    then show "fst (markAttendance tz now req db) = Status200 ''left''"
      by (simp add: m decide_left)
  next
    fix k
    assume "todayAttendanceIndex now ?h = Some k"
      and "leaveTime (?h ! k) \<noteq> None \<or> entryTime (?h ! k) = None"
    then show "fst (markAttendance tz now req db) = Status200 ''entered''"
      by (simp add: m decide_entered)
  next
    assume r: "recordOfScanDay tz now ?h None"
    show "attendanceHistory (snd (markAttendance tz now req db) ! i) =
        ?h @ [\<lparr>date = setHours tz now 0 0 0 0, status = ''entered'', entryTime = Some now, leaveTime = None\<rparr>]"
      using assms(5) by (simp add: m decide_none [OF ctl [OF r]] new [OF r])
  next
    fix k
    assume r: "recordOfScanDay tz now ?h (Some k)"
      and o: "entryTime (?h ! k) \<noteq> None \<and> leaveTime (?h ! k) = None"
    from decide_left [OF ctl [OF r]] o have e: "statusToSave now ?h = ''left''" by simp
    show h': "attendanceHistory (snd (markAttendance tz now req db) ! i) =
        ?h[k := (?h ! k)\<lparr>status := ''left'', leaveTime := Some now\<rparr>]"
      using assms(5) by (simp add: m e exit [OF r])
    fix e
    assume "entryTime (?h ! k) = Some e \<and> e < now"
    then show "entryBeforeLeave (attendanceHistory (snd (markAttendance tz now req db) ! i) ! k)"
      unfolding h' using bound [OF r] by (simp add: entryBeforeLeave_def)
  next
    fix k
    assume r: "recordOfScanDay tz now ?h (Some k)"
      and o: "leaveTime (?h ! k) \<noteq> None \<or> entryTime (?h ! k) = None"
    from decide_entered [OF ctl [OF r] o] have e: "statusToSave now ?h = ''entered''" .
    show "attendanceHistory (snd (markAttendance tz now req db) ! i) =
        ?h[k := (?h ! k)\<lparr>status := ''entered'', entryTime := Some now, leaveTime := None\<rparr>]"
      using assms(5) by (simp add: m e entry [OF r])
  qed
qed

lemma ex_utc_midnight:
  "setHours 0 1155600000 0 0 0 0 = 1123200000"
  "setHours 0 1177200000 0 0 0 0 = 1123200000"
  "setHours 0 1180800000 0 0 0 0 = 1123200000"
  by (simp_all add: setHours_def msPerDay_def)

lemma scan_state_machine_in_utc:
  "scan_id (scanOf 0) = Some 0 \<and> scan_indexNumber (scanOf 0) \<noteq> [] \<and> scan_name (scanOf 0) \<noteq> [] \<and>
   scan_hashValid (scanOf 0) \<and>
   recordOfScanDay 0 1155600000 [] None \<and>
   fst (markAttendance 0 1155600000 (scanOf 0) [studentWith [] None]) = Status200 ''entered'' \<and>
   attendanceHistory (snd (markAttendance 0 1155600000 (scanOf 0) [studentWith [] None]) ! 0) = [utcEntered] \<and>
   recordOfScanDay 0 1177200000 [utcEntered] (Some 0) \<and>
   fst (markAttendance 0 1177200000 (scanOf 0) [studentWith [utcEntered] None]) = Status200 ''left'' \<and>
   attendanceHistory (snd (markAttendance 0 1177200000 (scanOf 0) [studentWith [utcEntered] None]) ! 0) = [utcLeft] \<and>
   entryBeforeLeave (attendanceHistory (snd (markAttendance 0 1177200000 (scanOf 0) [studentWith [utcEntered] None]) ! 0) ! 0) \<and>
   recordOfScanDay 0 1180800000 [utcLeft] (Some 0) \<and>
   fst (markAttendance 0 1180800000 (scanOf 0) [studentWith [utcLeft] None]) = Status200 ''entered'' \<and>
   attendanceHistory (snd (markAttendance 0 1180800000 (scanOf 0) [studentWith [utcLeft] None]) ! 0) = [utcReopened] \<and>
   recordOfScanDay 0 1155600000 [utcMarkedPresent] (Some 0) \<and>
   fst (markAttendance 0 1155600000 (scanOf 0) [studentWith [utcMarkedPresent] None]) = Status200 ''entered'' \<and>
   attendanceHistory (snd (markAttendance 0 1155600000 (scanOf 0) [studentWith [utcMarkedPresent] None]) ! 0) = [utcEntered]"
proof -
  have req: "scan_id (scanOf 0) = Some 0" "scan_indexNumber (scanOf 0) \<noteq> []" "scan_name (scanOf 0) \<noteq> []"
    "scan_hashValid (scanOf 0)"
    by (simp_all add: scanOf_def)
  have len: "0 < length [studentWith h None]" for h by simp
  have hist: "attendanceHistory ([studentWith h None] ! 0) = h" for h
    by (simp add: studentWith_def)
  have days: "recordOfScanDay 0 1155600000 [] None"
    "recordOfScanDay 0 1177200000 [utcEntered] (Some 0)"
    "recordOfScanDay 0 1180800000 [utcLeft] (Some 0)"
    "recordOfScanDay 0 1155600000 [utcMarkedPresent] (Some 0)"
    by (simp_all add: recordOfScanDay_def todayAttendanceIndex_def toISODate_def toDateString_def
        ex_utc_midnight utcEntered_def utcLeft_def utcMarkedPresent_def msPerDay_def)
  have ctl: "todayAttendanceIndex 1155600000 [] = None"
    "todayAttendanceIndex 1177200000 [utcEntered] = Some 0"
    "todayAttendanceIndex 1180800000 [utcLeft] = Some 0"
    "todayAttendanceIndex 1155600000 [utcMarkedPresent] = Some 0"
    using days by (simp_all add: recordOfScanDay_def)
  note sm = scan_state_machine [OF req len, where tz = 0, unfolded hist]
  note decide = sm [THEN conjunct1] sm [THEN conjunct2, THEN conjunct1, THEN spec, THEN mp]
  note change = sm [THEN conjunct2, THEN conjunct2, THEN conjunct1]
    sm [THEN conjunct2, THEN conjunct2, THEN conjunct2, THEN spec, THEN mp]
  have open2: "entryTime ([utcEntered] ! 0) \<noteq> None \<and> leaveTime ([utcEntered] ! 0) = None"
    by (simp add: utcEntered_def)
  have closed3: "leaveTime ([utcLeft] ! 0) \<noteq> None \<or> entryTime ([utcLeft] ! 0) = None"
    by (simp add: utcLeft_def)
  have blank4: "leaveTime ([utcMarkedPresent] ! 0) \<noteq> None \<or> entryTime ([utcMarkedPresent] ! 0) = None"
    by (simp add: utcMarkedPresent_def)
  have d1: "fst (markAttendance 0 1155600000 (scanOf 0) [studentWith [] None]) = Status200 ''entered''"
    using decide(1) [THEN mp, OF ctl(1)] .
  have d2: "fst (markAttendance 0 1177200000 (scanOf 0) [studentWith [utcEntered] None]) = Status200 ''left''"
    using decide(2) [OF ctl(2), THEN conjunct1, THEN mp, OF open2] .
  have d3: "fst (markAttendance 0 1180800000 (scanOf 0) [studentWith [utcLeft] None]) = Status200 ''entered''"
    using decide(2) [OF ctl(3), THEN conjunct2, THEN mp, OF closed3] .
  have d4: "fst (markAttendance 0 1155600000 (scanOf 0) [studentWith [utcMarkedPresent] None]) = Status200 ''entered''"
    using decide(2) [OF ctl(4), THEN conjunct2, THEN mp, OF blank4] .
  have s1: "attendanceHistory (snd (markAttendance 0 1155600000 (scanOf 0) [studentWith [] None]) ! 0) = [utcEntered]"
    using change(1) [THEN mp, OF days(1)]
    by (simp add: ex_utc_midnight utcEntered_def)
  note c2 = change(2) [OF days(2), THEN conjunct1, THEN mp, OF open2]
  have s2: "attendanceHistory (snd (markAttendance 0 1177200000 (scanOf 0) [studentWith [utcEntered] None]) ! 0) = [utcLeft]"
    using c2 by (simp add: utcEntered_def utcLeft_def)
  have "entryTime ([utcEntered] ! 0) = Some 1155600000 \<and> (1155600000::int) < 1177200000"
    by (simp add: utcEntered_def)
  with c2 have s2': "entryBeforeLeave (attendanceHistory (snd (markAttendance 0 1177200000 (scanOf 0) [studentWith [utcEntered] None]) ! 0) ! 0)"
    by blast
  have s3: "attendanceHistory (snd (markAttendance 0 1180800000 (scanOf 0) [studentWith [utcLeft] None]) ! 0) = [utcReopened]"
    using change(2) [OF days(3), THEN conjunct2, THEN mp, OF closed3]
    by (simp add: utcLeft_def utcReopened_def)
  have s4: "attendanceHistory (snd (markAttendance 0 1155600000 (scanOf 0) [studentWith [utcMarkedPresent] None]) ! 0) = [utcEntered]"
    using change(2) [OF days(4), THEN conjunct2, THEN mp, OF blank4]
    by (simp add: utcMarkedPresent_def utcEntered_def)
  from req days d1 d2 d3 d4 s1 s2 s2' s3 s4 show ?thesis by simp
qed

text \<open>
  Claim C3 at a concrete clock. In a process at UTC+05:30 a student with no record scans
  at 08:00 and again at 10:00 of day 13. The first scan creates the day's record, dated at
  local midnight, which is 18:30 of the day before in UTC. At the second scan the record
  has an entry time and no leave time and is of the same local day, but the controller
  finds no record with the scan's ISO date: it decides \<open>entered\<close> and answers so, and the
  record keeps status \<open>entered\<close> with the entry time overwritten and no leave time.
\<close>

theorem second_scan_of_day_decided_entered:
  "attendanceHistory (snd (markAttendance colombo 1132200000 (scanOf 0) [studentWith [] None]) ! 0) = [enteredDay13] \<and>
   entryTime enteredDay13 = Some 1132200000 \<and>
   leaveTime enteredDay13 = None \<and>
   toDateString colombo (date enteredDay13) = toDateString colombo day13Morning \<and>
   todayAttendanceIndex day13Morning [enteredDay13] = None \<and>
   statusToSave day13Morning [enteredDay13] = ''entered'' \<and>
   fst (markAttendance colombo day13Morning (scanOf 0) [studentWith [enteredDay13] None]) = Status200 ''entered'' \<and>
   attendanceHistory (snd (markAttendance colombo day13Morning (scanOf 0) [studentWith [enteredDay13] None]) ! 0)
     = [reenteredDay13] \<and>
   map attendanceHistory
     (runOperations colombo alwaysSent [Scan 1132200000 (scanOf 0), Scan day13Morning (scanOf 0)] [studentWith [] None])
     = [[reenteredDay13]]"
  by (simp add: runOperations_def markAttendance_def scanOf_def Student_findById_def studentWith_def
      statusToSave_def todayAttendanceIndex_def Student_markAttendance_def
      toDateString_def toISODate_def setHours_def msPerDay_def
      enteredDay13_def reenteredDay13_def colombo_def day13Morning_def Let_def)

end
